theory Spec2Isabelle
  imports Complex_Main
begin

section \<open>Numbers, vectors and the random source\<close>

text \<open>
  The program is \<^verbatim>\<open>src/index.tsx\<close>. Its numbers are JavaScript numbers; they are
  read here as real numbers, so the theorems on these definitions are about the arithmetic
  the code writes down, not about the rounding of IEEE doubles. The rounding matters for
  what repeated ticks do to a position, and the section on the position in double
  precision models it.

  \<^verbatim>\<open>THREE.Vector3\<close> and \<^verbatim>\<open>THREE.Euler\<close> are records of three components (the Euler
  order is never changed from its default). \<^verbatim>\<open>Vector3.lerp(v, alpha)\<close> is
  \<^verbatim>\<open>this.x += (v.x - this.x) * alpha\<close> on each component, \<^verbatim>\<open>multiplyScalar\<close> scales
  each component, \<^verbatim>\<open>MathUtils.lerp(x, y, t)\<close> is \<^verbatim>\<open>(1 - t) * x + t * y\<close> and
  \<^verbatim>\<open>Math.hypot(a, b)\<close> is the root of the sum of the squares.
\<close>

record Vector3 =
  vx :: real
  vy :: real
  vz :: real

record Euler =
  ex :: real
  ey :: real
  ez :: real

definition Vector3_lerp :: "Vector3 \<Rightarrow> Vector3 \<Rightarrow> real \<Rightarrow> Vector3" where
  "Vector3_lerp a v alpha =
     \<lparr>vx = vx a + (vx v - vx a) * alpha,
      vy = vy a + (vy v - vy a) * alpha,
      vz = vz a + (vz v - vz a) * alpha\<rparr>"

definition multiplyScalar :: "Vector3 \<Rightarrow> real \<Rightarrow> Vector3" where
  "multiplyScalar a s = \<lparr>vx = vx a * s, vy = vy a * s, vz = vz a * s\<rparr>"

definition MathUtils_lerp :: "real \<Rightarrow> real \<Rightarrow> real \<Rightarrow> real" where
  "MathUtils_lerp x y t = (1 - t) * x + t * y"

definition Math_hypot :: "real \<Rightarrow> real \<Rightarrow> real" where
  "Math_hypot a b = sqrt (a * a + b * b)"

text \<open>Euclidean length and distance, used to state the claims about radii and convergence.\<close>

definition vlength :: "Vector3 \<Rightarrow> real" where
  "vlength a = sqrt (vx a * vx a + vy a * vy a + vz a * vz a)"

definition distanceTo :: "Vector3 \<Rightarrow> Vector3 \<Rightarrow> real" where
  "distanceTo a b =
     sqrt ((vx a - vx b) * (vx a - vx b) + (vy a - vy b) * (vy a - vy b)
           + (vz a - vz b) * (vz a - vz b))"

text \<open>
  \<^verbatim>\<open>Math.random()\<close> reads the next value of a sequence of draws, which is threaded
  through every function that calls it. A draw of the real source lies in \<open>[0, 1)\<close>
  (\<open>unit_draw\<close>); theorems that need it say so of the draws they use.
\<close>

type_synonym rng = "nat \<Rightarrow> real"

definition Math_random :: "rng \<Rightarrow> real \<times> rng" where
  "Math_random g = (g 0, \<lambda>n. g (Suc n))"

definition unit_draw :: "real \<Rightarrow> bool" where
  "unit_draw x = (0 \<le> x \<and> x < 1)"

section \<open>Particles\<close>

text \<open>
  The particle type is one of the strings the code passes
  (\<^verbatim>\<open>// 'ORNAMENT', 'PHOTO', 'DUST', 'CANDY'\<close>). Of the \<^verbatim>\<open>Object3D\<close> behind a particle
  only the transform is kept.
\<close>

datatype PType = ORNAMENT | PHOTO | DUST | CANDY

record Object3D =
  position :: Vector3
  rotation :: Euler
  scale :: Vector3

record Particle =
  mesh :: Object3D
  type :: PType
  baseScale :: Vector3
  treePos :: Vector3
  treeRot :: Euler
  scatterPos :: Vector3
  scatterVel :: Vector3

text \<open>\<^verbatim>\<open>calculatePositions()\<close>, lines 164 to 198: six draws, a seventh for a candy.\<close>

definition calculatePositions :: "Particle \<Rightarrow> rng \<Rightarrow> Particle \<times> rng" where
  "calculatePositions p g0 =
     (let (u, g1) = Math_random g0;
          (v, g2) = Math_random g1;
          theta = 2 * pi * u;
          phi = arccos (2 * v - 1);
          (r0, g3) = Math_random g2;
          r = 8 + r0 * 12;
          p1 = p\<lparr>scatterPos :=
                 \<lparr>vx = r * sin phi * cos theta,
                  vy = r * sin phi * sin theta,
                  vz = r * cos phi\<rparr>\<rparr>;
          (h, g4) = Math_random g3;
          y = h * 30 - 15;
          maxRadius = 12;
          radius = maxRadius * (1 - h) + 0.5;
          angle = h * 50;
          jitter = 1.0;
          (j1, g5) = Math_random g4;
          (j2, g6) = Math_random g5;
          p2 = p1\<lparr>treePos :=
                 \<lparr>vx = cos angle * radius + (j1 - 0.5) * jitter,
                  vy = y,
                  vz = sin angle * radius + (j2 - 0.5) * jitter\<rparr>\<rparr>;
          p3 = p2\<lparr>treeRot := \<lparr>ex = 0, ey = - angle, ez = 0\<rparr>\<rparr>
      in if type p = CANDY
         then (let (k, g7) = Math_random g6
               in (p3\<lparr>treeRot := (treeRot p3)\<lparr>ex := pi, ez := k * 0.5\<rparr>\<rparr>, g7))
         else (p3, g6))"

text \<open>The constructor, lines 144 to 162: three draws, the layout, two more draws.\<close>

definition Particle_new :: "Object3D \<Rightarrow> PType \<Rightarrow> rng \<Rightarrow> Particle \<times> rng" where
  "Particle_new m t g0 =
     (let (a, g1) = Math_random g0;
          (b, g2) = Math_random g1;
          (c, g3) = Math_random g2;
          p0 = \<lparr>mesh = m, type = t, baseScale = scale m,
                treePos = \<lparr>vx = 0, vy = 0, vz = 0\<rparr>,
                treeRot = \<lparr>ex = 0, ey = 0, ez = 0\<rparr>,
                scatterPos = \<lparr>vx = 0, vy = 0, vz = 0\<rparr>,
                scatterVel = multiplyScalar \<lparr>vx = a - 0.5, vy = b - 0.5, vz = c - 0.5\<rparr> 0.02\<rparr>;
          (p1, g4) = calculatePositions p0 g3;
          (d, g5) = Math_random g4;
          (e, g6) = Math_random g5
      in (p1\<lparr>mesh := (mesh p1)\<lparr>position := scatterPos p1,
                                   rotation := \<lparr>ex = d * pi, ey = e * pi, ez = 0\<rparr>\<rparr>\<rparr>, g6))"

section \<open>The interaction state and the integrator\<close>

datatype Mode = TREE | SCATTER | FOCUS

text \<open>
  \<^verbatim>\<open>STATE.targetPhoto\<close> is a reference to a particle or \<^verbatim>\<open>null\<close>. Particles are only ever
  pushed onto \<^verbatim>\<open>particles\<close>, so a particle is identified by its index there, and
  \<^verbatim>\<open>this === STATE.targetPhoto\<close> compares indices.
\<close>

record State =
  mode :: Mode
  targetPhoto :: "nat option"
  handRotation_x :: real
  handRotation_y :: real
  isLoaded :: bool

text \<open>
  The tail of \<^verbatim>\<open>update\<close> (\<^verbatim>\<open>// Lerp logic\<close>, lines 232 to 240). The quaternion
  interpolation \<^verbatim>\<open>mesh.quaternion.slerp(new Quaternion().setFromEuler(targetRot), 0.05)\<close>
  is three.js code; three.js keeps \<^verbatim>\<open>mesh.rotation\<close> and \<^verbatim>\<open>mesh.quaternion\<close> in step, so
  the call is a function \<open>slerp\<close> from the current rotation, the target rotation and the
  factor to the new rotation, and every function that reaches it takes \<open>slerp\<close> as a
  parameter.
\<close>

definition lerpLogic ::
  "(Euler \<Rightarrow> Euler \<Rightarrow> real \<Rightarrow> Euler) \<Rightarrow> State \<Rightarrow> Particle \<Rightarrow> Vector3 \<Rightarrow> Vector3 \<Rightarrow> Euler \<Rightarrow> Particle"
where
  "lerpLogic slerp st p targetPos targetScale targetRot =
     (let m1 = (mesh p)\<lparr>position := Vector3_lerp (position (mesh p)) targetPos 0.05\<rparr>;
          m2 = m1\<lparr>scale := Vector3_lerp (scale m1) targetScale 0.05\<rparr>;
          m3 = (if mode st \<noteq> SCATTER
                then m2\<lparr>rotation := slerp (rotation m2) targetRot 0.05\<rparr>
                else m2)
      in p\<lparr>mesh := m3\<rparr>)"

text \<open>
  \<^verbatim>\<open>update(dt)\<close>, lines 200 to 241, for the particle of index \<open>self\<close>. The SCATTER
  branch returns before the tail.
\<close>

definition update ::
  "(Euler \<Rightarrow> Euler \<Rightarrow> real \<Rightarrow> Euler) \<Rightarrow> State \<Rightarrow> nat \<Rightarrow> Particle \<Rightarrow> real \<Rightarrow> Particle"
where
  "update slerp st self p dt =
     (let targetPos = \<lparr>vx = 0, vy = 0, vz = 0\<rparr>;
          targetScale = baseScale p;
          targetRot = \<lparr>ex = 0, ey = 0, ez = 0\<rparr>
      in if mode st = TREE then
           lerpLogic slerp st p (treePos p) targetScale (treeRot p)
         else if mode st = SCATTER then
           (let targetPos = scatterPos p;
                m1 = (mesh p)\<lparr>rotation :=
                       (rotation (mesh p))\<lparr>ex := ex (rotation (mesh p)) + vx (scatterVel p)\<rparr>\<rparr>;
                m2 = m1\<lparr>rotation :=
                       (rotation m1)\<lparr>ey := ey (rotation m1) + vy (scatterVel p)\<rparr>\<rparr>;
                m3 = m2\<lparr>position := Vector3_lerp (position m2) targetPos 0.05\<rparr>
            in p\<lparr>mesh := m3\<rparr>)
         else if mode st = FOCUS then
           (if targetPhoto st = Some self then
              lerpLogic slerp st p \<lparr>vx = 0, vy = 2, vz = 35\<rparr>
                (multiplyScalar targetScale 4.5) \<lparr>ex = 0, ey = 0, ez = 0\<rparr>
            else
              lerpLogic slerp st p (multiplyScalar (scatterPos p) 1.5) targetScale targetRot)
         else lerpLogic slerp st p targetPos targetScale targetRot)"

text \<open>
  The position \<^verbatim>\<open>update\<close> moves the particle towards: the value of its local
  \<^verbatim>\<open>targetPos\<close> when the position is interpolated.
\<close>

definition targetPos_of :: "State \<Rightarrow> nat \<Rightarrow> Particle \<Rightarrow> Vector3" where
  "targetPos_of st self p =
     (if mode st = TREE then treePos p
      else if mode st = SCATTER then scatterPos p
      else if targetPhoto st = Some self then \<lparr>vx = 0, vy = 2, vz = 35\<rparr>
      else multiplyScalar (scatterPos p) 1.5)"

section \<open>The scene: population, upload, detection and animation\<close>

record World =
  STATE :: State
  particles :: "Particle list"
  mainGroup_rotation :: Euler
  dustSystem_rotation_y :: real
  lastVideoTime :: real

text \<open>\<^verbatim>\<open>addMesh\<close>, lines 246 to 251; the result is the world and the new particle's index.\<close>

definition addMesh :: "Object3D \<Rightarrow> PType \<Rightarrow> World \<Rightarrow> rng \<Rightarrow> (World \<times> nat) \<times> rng" where
  "addMesh m t w g =
     (let (p, g1) = Particle_new m t g
      in ((w\<lparr>particles := particles w @ [p]\<rparr>, length (particles w)), g1))"

text \<open>A fresh \<^verbatim>\<open>THREE.Group\<close>: at the origin, not rotated, of scale one.\<close>

definition photoGroup :: Object3D where
  "photoGroup =
     \<lparr>position = \<lparr>vx = 0, vy = 0, vz = 0\<rparr>,
      rotation = \<lparr>ex = 0, ey = 0, ez = 0\<rparr>,
      scale = \<lparr>vx = 1, vy = 1, vz = 1\<rparr>\<rparr>"

text \<open>
  \<^verbatim>\<open>addPhotoToScene\<close>, lines 294 to 311: the particle is built by \<^verbatim>\<open>addMesh\<close> and then
  \<^verbatim>\<open>p.calculatePositions()\<close> runs on it once more.
\<close>

definition addPhotoToScene :: "World \<Rightarrow> rng \<Rightarrow> World \<times> rng" where
  "addPhotoToScene w g =
     (let ((w1, i), g1) = addMesh photoGroup PHOTO w g;
          (p, g2) = calculatePositions (particles w1 ! i) g1
      in (w1\<lparr>particles := (particles w1)[i := p]\<rparr>, g2))"

text \<open>The callback of the texture loader in the upload handler, lines 326 to 330.\<close>

definition fileInput_onload :: "World \<Rightarrow> rng \<Rightarrow> World \<times> rng" where
  "fileInput_onload w g =
     (let (w1, g1) = addPhotoToScene w g
      in (w1\<lparr>STATE := (STATE w1)\<lparr>mode := TREE\<rparr>\<rparr>, g1))"

text \<open>
  A landmark of the hand tracker. A frame is the array \<^verbatim>\<open>result.landmarks[0]\<close>; reading
  a landmark the array does not hold gives \<^verbatim>\<open>undefined\<close>, and reading \<^verbatim>\<open>.x\<close> of that
  throws a \<^verbatim>\<open>TypeError\<close>.
\<close>

record Landmark =
  lx :: real
  ly :: real
  lz :: real

datatype error = TypeError

definition pinchDist :: "Landmark list \<Rightarrow> real" where
  "pinchDist lm =
     (let thumb = lm ! 4; index = lm ! 8
      in Math_hypot (lx thumb - lx index) (ly thumb - ly index))"

definition avgTipDist :: "Landmark list \<Rightarrow> real" where
  "avgTipDist lm =
     (let wrist = lm ! 0;
          tips = [lm ! 8, lm ! 12, lm ! 16, lm ! 20]
      in foldl (\<lambda>acc tip. acc + Math_hypot (lx tip - lx wrist) (ly tip - ly wrist)) 0 tips / 4)"

text \<open>
  \<^verbatim>\<open>predictWebcam\<close>, lines 389 to 440, as one detection tick. \<open>handLandmarker\<close> says
  whether the tracker is loaded, \<open>currentTime\<close> is \<^verbatim>\<open>video.currentTime\<close> and \<open>landmarks\<close>
  is \<^verbatim>\<open>result.landmarks\<close> (\<open>None\<close> when it is missing). The landmarks read are 0, 4, 8, 9,
  12, 16 and 20, all of them before \<^verbatim>\<open>STATE\<close> is written, so a frame of fewer than 21
  landmarks throws.
\<close>

definition predictWebcam ::
  "bool \<Rightarrow> real \<Rightarrow> Landmark list list option \<Rightarrow> World \<Rightarrow> rng \<Rightarrow> error + (World \<times> rng)"
where
  "predictWebcam handLandmarker currentTime landmarks w g =
     (if handLandmarker \<and> currentTime \<noteq> lastVideoTime w then
        (let w1 = w\<lparr>lastVideoTime := currentTime\<rparr>
         in case landmarks of
              Some (lm # hands) \<Rightarrow>
                if length lm < 21 then Inl TypeError
                else
                  (let st = STATE w1;
                       (st1, g1) =
                         (if pinchDist lm < 0.05 then
                            (let st' = st\<lparr>mode := FOCUS\<rparr>
                             in if targetPhoto st' = None then
                                  (let photos = filter (\<lambda>i. type (particles w1 ! i) = PHOTO)
                                                  [0 ..< length (particles w1)]
                                   in if length photos > 0 then
                                        (let (r, g') = Math_random g
                                         in (st'\<lparr>targetPhoto :=
                                                Some (photos ! nat \<lfloor>r * real (length photos)\<rfloor>)\<rparr>, g'))
                                      else (st', g))
                                else (st', g))
                          else if avgTipDist lm < 0.25 then
                            (st\<lparr>mode := TREE, targetPhoto := None\<rparr>, g)
                          else if avgTipDist lm > 0.4 then
                            (st\<lparr>mode := SCATTER, targetPhoto := None\<rparr>, g)
                          else (st, g));
                       palm = lm ! 9;
                       st2 = st1\<lparr>handRotation_y := (lx palm - 0.5) * 2\<rparr>;
                       st3 = st2\<lparr>handRotation_x := (ly palm - 0.5) * 1\<rparr>
                   in Inr (w1\<lparr>STATE := st3\<rparr>, g1))
            | _ \<Rightarrow> Inr (w1, g))
      else Inr (w, g))"

text \<open>
  \<^verbatim>\<open>animate\<close>, lines 445 to 466, as one integration tick; \<open>delta\<close> is
  \<^verbatim>\<open>clock.getDelta()\<close>.
\<close>

definition animate :: "(Euler \<Rightarrow> Euler \<Rightarrow> real \<Rightarrow> Euler) \<Rightarrow> real \<Rightarrow> World \<Rightarrow> World" where
  "animate slerp delta w =
     (let ps = map (\<lambda>(i, p). update slerp (STATE w) i p delta) (enumerate 0 (particles w));
          w1 = w\<lparr>particles := ps\<rparr>;
          w2 = w1\<lparr>dustSystem_rotation_y := dustSystem_rotation_y w1 + 0.05 * delta\<rparr>;
          w3 = w2\<lparr>mainGroup_rotation := (mainGroup_rotation w2)
                 \<lparr>ey := MathUtils_lerp (ey (mainGroup_rotation w2)) (handRotation_y (STATE w2)) 0.05\<rparr>\<rparr>;
          w4 = w3\<lparr>mainGroup_rotation := (mainGroup_rotation w3)
                 \<lparr>ex := MathUtils_lerp (ex (mainGroup_rotation w3)) (handRotation_x (STATE w3)) 0.05\<rparr>\<rparr>
      in if mode (STATE w4) = TREE
         then w4\<lparr>mainGroup_rotation := (mainGroup_rotation w4)
                 \<lparr>ey := ey (mainGroup_rotation w4) + 0.1 * delta\<rparr>\<rparr>
         else w4)"

text \<open>
  The render loop re-queues \<^verbatim>\<open>animate\<close> for every display refresh: \<open>ticks slerp dts n w\<close>
  is the world after \<open>n\<close> integration ticks from \<open>w\<close>, the \<open>k\<close>-th with \<open>delta = dts k\<close>.
\<close>

primrec ticks :: "(Euler \<Rightarrow> Euler \<Rightarrow> real \<Rightarrow> Euler) \<Rightarrow> (nat \<Rightarrow> real) \<Rightarrow> nat \<Rightarrow> World \<Rightarrow> World" where
  "ticks slerp dts 0 w = w"
| "ticks slerp dts (Suc n) w = animate slerp (dts n) (ticks slerp dts n w)"

text \<open>The layout targets of a particle.\<close>

definition targets :: "Particle \<Rightarrow> Vector3 \<times> Euler \<times> Vector3" where
  "targets p = (treePos p, treeRot p, scatterPos p)"

section \<open>The position in double precision\<close>

text \<open>
  A JavaScript number is an IEEE 754 double, and every \<^verbatim>\<open>+\<close>, \<^verbatim>\<open>-\<close> and \<^verbatim>\<open>*\<close> rounds its exact
  result to the nearest double, a tie going to the even significand. The definitions above
  leave the rounding out. For the position of a particle, which the claim about repeated
  ticks is about, it is put back here.

  \<open>rne\<close> rounds a real number to the nearest integer, a tie to the even one. A nonzero
  \<open>x\<close> with \<open>2 ^ e \<le> \<bar>x\<bar> < 2 ^ (e + 1)\<close> lies on or between doubles that are
  \<open>2 ^ (e - 52)\<close> apart, and every \<open>x\<close> below \<open>2 ^ - 1022\<close> in size between doubles
  that are \<open>2 ^ - 1074\<close> apart (\<open>ulp64\<close>); \<open>round64 x\<close> is the nearest of them.
  \<open>binary64 x\<close> is the double that holds an exact result \<open>x\<close>: \<open>round64 x\<close>, or \<open>None\<close>
  when that is \<open>2 ^ 1024\<close> or more in size and the code would hold an infinity.
\<close>

definition rne :: "real \<Rightarrow> int" where
  "rne w =
     (let f = \<lfloor>w\<rfloor>; r = w - of_int f
      in if r < 1 / 2 then f else if 1 / 2 < r then f + 1 else if even f then f else f + 1)"

definition ulp64 :: "real \<Rightarrow> real" where
  "ulp64 x = 2 powr (of_int (max \<lfloor>log 2 \<bar>x\<bar>\<rfloor> (- 1022)) - 52)"

definition round64 :: "real \<Rightarrow> real" where
  "round64 x = (if x = 0 then 0 else of_int (rne (x / ulp64 x)) * ulp64 x)"

definition binary64 :: "real \<Rightarrow> real option" where
  "binary64 x = (if \<bar>round64 x\<bar> < 2 ^ 1024 then Some (round64 x) else None)"

text \<open>
  \<^verbatim>\<open>this.x += (v.x - this.x) * alpha\<close> of \<^verbatim>\<open>Vector3.lerp\<close> and \<^verbatim>\<open>this.x *= scalar\<close> of
  \<^verbatim>\<open>multiplyScalar\<close>, with each operation rounded; \<open>None\<close> when a result is not finite.
\<close>

definition lerp64 :: "real \<Rightarrow> real \<Rightarrow> real \<Rightarrow> real option" where
  "lerp64 x v alpha =
     (case binary64 (v - x) of
        None \<Rightarrow> None
      | Some d \<Rightarrow>
          (case binary64 (d * alpha) of
             None \<Rightarrow> None
           | Some m \<Rightarrow> binary64 (x + m)))"

definition Vector3_lerp64 :: "Vector3 \<Rightarrow> Vector3 \<Rightarrow> real \<Rightarrow> Vector3 option" where
  "Vector3_lerp64 a v alpha =
     (case (lerp64 (vx a) (vx v) alpha, lerp64 (vy a) (vy v) alpha, lerp64 (vz a) (vz v) alpha) of
        (Some x, Some y, Some z) \<Rightarrow> Some \<lparr>vx = x, vy = y, vz = z\<rparr>
      | _ \<Rightarrow> None)"

definition multiplyScalar64 :: "Vector3 \<Rightarrow> real \<Rightarrow> Vector3 option" where
  "multiplyScalar64 a s =
     (case (binary64 (vx a * s), binary64 (vy a * s), binary64 (vz a * s)) of
        (Some x, Some y, Some z) \<Rightarrow> Some \<lparr>vx = x, vy = y, vz = z\<rparr>
      | _ \<Rightarrow> None)"

text \<open>
  The position that one call of \<^verbatim>\<open>update\<close> writes, as the code computes it: the local
  \<^verbatim>\<open>targetPos\<close> of lines 205 to 230, and the interpolation of line 216 or 233 towards it
  with the double that the literal \<^verbatim>\<open>0.05\<close> denotes. The literals 0, 2, 35 and 1.5 are
  doubles.
\<close>

definition targetPos64 :: "State \<Rightarrow> nat \<Rightarrow> Particle \<Rightarrow> Vector3 option" where
  "targetPos64 st self p =
     (if mode st = TREE then Some (treePos p)
      else if mode st = SCATTER then Some (scatterPos p)
      else if targetPhoto st = Some self then Some \<lparr>vx = 0, vy = 2, vz = 35\<rparr>
      else multiplyScalar64 (scatterPos p) 1.5)"

definition position64 :: "State \<Rightarrow> nat \<Rightarrow> Particle \<Rightarrow> Vector3 option" where
  "position64 st self p =
     (case targetPos64 st self p of
        None \<Rightarrow> None
      | Some targetPos \<Rightarrow>
          (case binary64 0.05 of
             None \<Rightarrow> None
           | Some alpha \<Rightarrow> Vector3_lerp64 (position (mesh p)) targetPos alpha))"

text \<open>
  The position of the particle after \<open>n\<close> integration ticks under an unchanged state. A
  tick writes no field of the particle that \<open>targetPos64\<close> reads.
\<close>

primrec ticks64 :: "State \<Rightarrow> nat \<Rightarrow> Particle \<Rightarrow> nat \<Rightarrow> Vector3 option" where
  "ticks64 st self p 0 = Some (position (mesh p))"
| "ticks64 st self p (Suc n) =
     (case ticks64 st self p n of
        None \<Rightarrow> None
      | Some q \<Rightarrow> position64 st self (p\<lparr>mesh := (mesh p)\<lparr>position := q\<rparr>\<rparr>))"

text \<open>
  One component over the ticks when every result is finite, \<open>t\<close> being the component of the
  target.
\<close>

primrec component64 :: "real \<Rightarrow> real \<Rightarrow> nat \<Rightarrow> real" where
  "component64 x t 0 = x"
| "component64 x t (Suc n) =
     round64 (component64 x t n
              + round64 (round64 (t - component64 x t n) * (3602879701896397 / 2 ^ 56)))"

text \<open>
  A double of size at most \<open>2 ^ k\<close>, and a vector of doubles of size at most
  \<open>2 ^ 1000\<close>. What a tick does to one
  component, from \<open>x\<close> to \<open>x'\<close>, with the target component \<open>t\<close>, \<open>n\<close> ticks after the
  component was \<open>x0\<close>: \<open>x'\<close> lies between \<open>x\<close> and \<open>t\<close>; it is the exact interpolation
  \<open>x + (t - x) * 0.05\<close> up to the rounding of three operations; and the offset of \<open>x\<close> from
  \<open>t\<close> is at most \<open>0.95 ^ n\<close> times the first offset plus the rounding gathered on the way.
\<close>

definition double_upto :: "nat \<Rightarrow> real \<Rightarrow> bool" where
  "double_upto k x = (round64 x = x \<and> \<bar>x\<bar> \<le> 2 ^ k)"

definition double_vec :: "Vector3 \<Rightarrow> bool" where
  "double_vec v = (double_upto 1000 (vx v) \<and> double_upto 1000 (vy v) \<and> double_upto 1000 (vz v))"

definition settles :: "real \<Rightarrow> real \<Rightarrow> nat \<Rightarrow> real \<Rightarrow> real \<Rightarrow> bool" where
  "settles x0 t n x x' =
     (min x t \<le> x' \<and> x' \<le> max x t \<and>
      \<bar>x' - (x + (t - x) * 0.05)\<bar> \<le> max \<bar>x\<bar> \<bar>t\<bar> / 2 ^ 52 + 1 / 2 ^ 1073 \<and>
      \<bar>t - x\<bar> \<le> 0.95 ^ n * \<bar>t - x0\<bar> + max \<bar>x0\<bar> \<bar>t\<bar> / 2 ^ 47 + 1 / 2 ^ 1068)"

section \<open>Sample inputs\<close>

text \<open>
  Concrete inputs at which the theorems below are instantiated: three sequences of
  draws, a stand-in for the three.js interpolation of rotations, states and worlds, four
  hand frames, and three particles built by the constructor.
\<close>

definition zeroRng :: rng where
  "zeroRng = (\<lambda>n. 0)"

definition halfRng :: rng where
  "halfRng = (\<lambda>n. 1 / 2)"

definition stepRng :: rng where
  "stepRng = (\<lambda>n. if n < 11 then 0 else 1 / 2)"

definition sampleSlerp :: "Euler \<Rightarrow> Euler \<Rightarrow> real \<Rightarrow> Euler" where
  "sampleSlerp cur tgt t =
     \<lparr>ex = ex cur + (ex tgt - ex cur) * t,
      ey = ey cur + (ey tgt - ey cur) * t,
      ez = ez cur + (ez tgt - ez cur) * t\<rparr>"

definition stateIn :: "Mode \<Rightarrow> nat option \<Rightarrow> State" where
  "stateIn m tp =
     \<lparr>mode = m, targetPhoto = tp, handRotation_x = 0, handRotation_y = 0, isLoaded = True\<rparr>"

definition worldOf :: "State \<Rightarrow> Particle list \<Rightarrow> World" where
  "worldOf st ps =
     \<lparr>STATE = st, particles = ps, mainGroup_rotation = \<lparr>ex = 0, ey = 0, ez = 0\<rparr>,
      dustSystem_rotation_y = 0, lastVideoTime = - 1\<rparr>"

text \<open>
  Hand frames of 21 landmarks with the wrist at the origin, the thumb tip at \<open>thumbX\<close>, the
  four other finger tips at \<open>tipX\<close> and the palm centre at \<open>(palmX, palmY)\<close>: the pinch
  distance is \<open>\<bar>thumbX - tipX\<bar>\<close> and the average tip distance is \<open>\<bar>tipX\<bar>\<close>.
\<close>

definition landmark :: "real \<Rightarrow> real \<Rightarrow> Landmark" where
  "landmark a b = \<lparr>lx = a, ly = b, lz = 0\<rparr>"

definition hand :: "real \<Rightarrow> real \<Rightarrow> real \<Rightarrow> real \<Rightarrow> Landmark list" where
  "hand thumbX tipX palmX palmY =
     (let z = landmark 0 0; tip = landmark tipX 0
      in [z, z, z, z, landmark thumbX 0, z, z, z, tip, landmark palmX palmY, z, z, tip,
          z, z, z, tip, z, z, z, tip])"

definition pinchHand :: "Landmark list" where
  "pinchHand = hand 0.27 0.30 0.75 0.25"

definition fistHand :: "Landmark list" where
  "fistHand = hand 0 0.20 0.75 0.25"

definition openHand :: "Landmark list" where
  "openHand = hand 0 0.45 0.75 0.25"

definition ambiguousHand :: "Landmark list" where
  "ambiguousHand = hand 0.20 0.30 0.75 0.25"

definition samplePhoto :: Particle where
  "samplePhoto = fst (Particle_new photoGroup PHOTO zeroRng)"

definition sampleParticle :: Particle where
  "sampleParticle = fst (Particle_new photoGroup ORNAMENT zeroRng)"

text \<open>
  The sample particle with each component of its position ten steps of the double grid
  short of its tree position \<open>(12, - 15, - 1 / 2)\<close>.
\<close>

definition stalledParticle :: Particle where
  "stalledParticle =
     sampleParticle\<lparr>mesh := (mesh sampleParticle)
       \<lparr>position := \<lparr>vx = 12 - 10 / 2 ^ 49, vy = - 15 + 10 / 2 ^ 49,
                      vz = - 1 / 2 - 10 / 2 ^ 53\<rparr>\<rparr>\<rparr>"

definition sampleCandy :: Particle where
  "sampleCandy = fst (Particle_new photoGroup CANDY halfRng)"

section \<open>Basic facts\<close>

lemma Math_random_simps:
  "fst (Math_random g) = g 0" "snd (Math_random g) n = g (Suc n)"
  by (simp_all add: Math_random_def)

lemma calculatePositions_frame:
  "mesh (fst (calculatePositions p g)) = mesh p"
  "type (fst (calculatePositions p g)) = type p"
  "baseScale (fst (calculatePositions p g)) = baseScale p"
  "scatterVel (fst (calculatePositions p g)) = scatterVel p"
  by (simp_all add: calculatePositions_def Math_random_def Let_def)

lemma calculatePositions_scatterPos:
  "scatterPos (fst (calculatePositions p g)) =
     \<lparr>vx = (8 + g 2 * 12) * sin (arccos (2 * g 1 - 1)) * cos (2 * pi * g 0),
      vy = (8 + g 2 * 12) * sin (arccos (2 * g 1 - 1)) * sin (2 * pi * g 0),
      vz = (8 + g 2 * 12) * cos (arccos (2 * g 1 - 1))\<rparr>"
  by (simp add: calculatePositions_def Math_random_def Let_def eval_nat_numeral)

lemma calculatePositions_treePos:
  "treePos (fst (calculatePositions p g)) =
     \<lparr>vx = cos (g 3 * 50) * (12 * (1 - g 3) + 0.5) + (g 4 - 0.5) * 1.0,
      vy = g 3 * 30 - 15,
      vz = sin (g 3 * 50) * (12 * (1 - g 3) + 0.5) + (g 5 - 0.5) * 1.0\<rparr>"
  by (simp add: calculatePositions_def Math_random_def Let_def eval_nat_numeral)

lemma calculatePositions_treeRot:
  "treeRot (fst (calculatePositions p g)) =
     (if type p = CANDY then \<lparr>ex = pi, ey = - (g 3 * 50), ez = g 6 * 0.5\<rparr>
      else \<lparr>ex = 0, ey = - (g 3 * 50), ez = 0\<rparr>)"
  by (simp add: calculatePositions_def Math_random_def Let_def eval_nat_numeral)

lemma calculatePositions_rng:
  "snd (calculatePositions p g) = (if type p = CANDY then (\<lambda>n. g (n + 7)) else (\<lambda>n. g (n + 6)))"
  by (auto simp add: calculatePositions_def Math_random_def Let_def eval_nat_numeral)

lemma shell_length:
  "sqrt ((r * sin b * cos a) * (r * sin b * cos a) + (r * sin b * sin a) * (r * sin b * sin a)
         + (r * cos b) * (r * cos b)) = \<bar>r\<bar>"
proof -
  have ca: "cos a * cos a + sin a * sin a = 1"
    using sin_cos_squared_add2 [of a] by (simp add: power2_eq_square)
  have cb: "sin b * sin b + cos b * cos b = 1"
    using sin_cos_squared_add [of b] by (simp add: power2_eq_square)
  have "(r * sin b * cos a) * (r * sin b * cos a) + (r * sin b * sin a) * (r * sin b * sin a)
         + (r * cos b) * (r * cos b)
        = r * r * (sin b * sin b * (cos a * cos a + sin a * sin a) + cos b * cos b)"
    by algebra
  also have "\<dots> = r * r" by (simp only: ca cb mult_1_right)
  finally show ?thesis by simp
qed

lemma Particle_new_fields:
  "type (fst (Particle_new m t g)) = t"
  "baseScale (fst (Particle_new m t g)) = scale m"
  "scale (mesh (fst (Particle_new m t g))) = scale m"
  "scatterVel (fst (Particle_new m t g)) =
     \<lparr>vx = (g 0 - 0.5) * 0.02, vy = (g 1 - 0.5) * 0.02, vz = (g 2 - 0.5) * 0.02\<rparr>"
  "position (mesh (fst (Particle_new m t g))) = scatterPos (fst (Particle_new m t g))"
  by (simp_all add: Particle_new_def Math_random_def Let_def split_def calculatePositions_frame
        multiplyScalar_def eval_nat_numeral)

lemma Particle_new_rotation:
  "rotation (mesh (fst (Particle_new m t g))) =
     (if t = CANDY then \<lparr>ex = g 10 * pi, ey = g 11 * pi, ez = 0\<rparr>
      else \<lparr>ex = g 9 * pi, ey = g 10 * pi, ez = 0\<rparr>)"
  by (simp add: Particle_new_def Math_random_def Let_def split_def calculatePositions_frame
        calculatePositions_rng eval_nat_numeral)

lemma Particle_new_targets:
  "targets (fst (Particle_new m t g)) =
     targets (fst (calculatePositions
        \<lparr>mesh = m, type = t, baseScale = scale m,
         treePos = \<lparr>vx = 0, vy = 0, vz = 0\<rparr>,
         treeRot = \<lparr>ex = 0, ey = 0, ez = 0\<rparr>,
         scatterPos = \<lparr>vx = 0, vy = 0, vz = 0\<rparr>,
         scatterVel = multiplyScalar \<lparr>vx = g 0 - 0.5, vy = g 1 - 0.5, vz = g 2 - 0.5\<rparr> 0.02\<rparr>
        (\<lambda>n. g (n + 3))))"
  by (simp add: Particle_new_def Math_random_def Let_def split_def targets_def eval_nat_numeral)

lemma sampleParticle_value:
  "sampleParticle =
     \<lparr>mesh = \<lparr>position = \<lparr>vx = 0, vy = 0, vz = - 8\<rparr>,
              rotation = \<lparr>ex = 0, ey = 0, ez = 0\<rparr>,
              scale = \<lparr>vx = 1, vy = 1, vz = 1\<rparr>\<rparr>,
      type = ORNAMENT,
      baseScale = \<lparr>vx = 1, vy = 1, vz = 1\<rparr>,
      treePos = \<lparr>vx = 12, vy = - 15, vz = - 1 / 2\<rparr>,
      treeRot = \<lparr>ex = 0, ey = 0, ez = 0\<rparr>,
      scatterPos = \<lparr>vx = 0, vy = 0, vz = - 8\<rparr>,
      scatterVel = \<lparr>vx = - 1 / 100, vy = - 1 / 100, vz = - 1 / 100\<rparr>\<rparr>"
  by (simp add: sampleParticle_def Particle_new_def calculatePositions_def Math_random_def
        Let_def zeroRng_def photoGroup_def multiplyScalar_def)

lemma Math_hypot_circle: "0 \<le> r \<Longrightarrow> Math_hypot (cos a * r) (sin a * r) = r"
proof -
  assume r: "0 \<le> r"
  have ca: "cos a * cos a + sin a * sin a = 1"
    using sin_cos_squared_add2 [of a] by (simp add: power2_eq_square)
  have "cos a * r * (cos a * r) + sin a * r * (sin a * r) = r * r * (cos a * cos a + sin a * sin a)"
    by algebra
  also have "\<dots> = r * r" by (simp only: ca mult_1_right)
  finally show ?thesis using r by (simp add: Math_hypot_def)
qed


lemma update_SCATTER:
  "mode st = SCATTER \<Longrightarrow>
   update slerp st self p dt =
     p\<lparr>mesh := (mesh p)
        \<lparr>rotation := (rotation (mesh p))
           \<lparr>ex := ex (rotation (mesh p)) + vx (scatterVel p),
            ey := ey (rotation (mesh p)) + vy (scatterVel p)\<rparr>,
         position := Vector3_lerp (position (mesh p)) (scatterPos p) 0.05\<rparr>\<rparr>"
  by (simp add: update_def Let_def)

text \<open>
  C7. Whatever the particle, the scatter position that \<^verbatim>\<open>calculatePositions\<close> writes is the
  radius \<open>8 + 12 r\<close>, for the third draw \<open>r\<close>, times a direction of length one; so for a draw
  in \<open>[0, 1)\<close> its distance from the origin is \<open>8 + 12 r\<close> and lies between 8 and 20.
\<close>

theorem scatter_radius_in_shell:
  "unit_draw (g 2) \<Longrightarrow>
   (let q = scatterPos (fst (calculatePositions p g));
        phi = arccos (2 * g 1 - 1);
        theta = 2 * pi * g 0;
        d = \<lparr>vx = sin phi * cos theta, vy = sin phi * sin theta, vz = cos phi\<rparr>
    in vlength d = 1 \<and> q = multiplyScalar d (8 + g 2 * 12) \<and>
       vlength q = 8 + g 2 * 12 \<and> 8 \<le> vlength q \<and> vlength q \<le> 20)"
proof -
  assume u: "unit_draw (g 2)"
  define r where "r = 8 + g 2 * 12"
  have r: "8 \<le> r" "r \<le> 20" using u by (simp_all add: r_def unit_draw_def)
  have len: "vlength (scatterPos (fst (calculatePositions p g))) = r"
    using shell_length [of r "arccos (2 * g 1 - 1)" "2 * pi * g 0"] r
    by (simp add: calculatePositions_scatterPos vlength_def r_def)
  have unit: "vlength \<lparr>vx = sin (arccos (2 * g 1 - 1)) * cos (2 * pi * g 0),
                       vy = sin (arccos (2 * g 1 - 1)) * sin (2 * pi * g 0),
                       vz = cos (arccos (2 * g 1 - 1))\<rparr> = 1"
    using shell_length [of 1 "arccos (2 * g 1 - 1)" "2 * pi * g 0"]
    by (simp add: vlength_def)
  show ?thesis
    using len unit r
    by (simp add: Let_def calculatePositions_scatterPos multiplyScalar_def r_def mult.commute
          mult.left_commute)
qed

theorem scatter_radius_in_shell_witness:
  "unit_draw (halfRng 2) \<and>
   vlength (scatterPos (fst (calculatePositions sampleParticle halfRng))) = 14"
proof -
  have u: "unit_draw (halfRng 2)" by (simp add: halfRng_def unit_draw_def)
  from scatter_radius_in_shell [of halfRng sampleParticle, OF u, unfolded Let_def]
  have "vlength (scatterPos (fst (calculatePositions sampleParticle halfRng))) = 8 + halfRng 2 * 12"
    by blast
  then show ?thesis using u by (simp add: halfRng_def)
qed

text \<open>
  C8. The tree position that \<^verbatim>\<open>calculatePositions\<close> writes, for the height fraction \<open>h\<close>
  (the fourth draw): the height is \<open>30 h - 15\<close>, within \<open>[-15, 15]\<close>; the two horizontal
  components are a point at radius \<open>12 (1 - h) + 0.5\<close>, within \<open>[0.5, 12.5]\<close>, and angle
  \<open>50 h\<close>, plus a jitter within \<open>[-0.5, 0.5]\<close> each; the yaw is minus the angle; a candy is
  turned by \<open>pi\<close> about the first axis and rolled by half the seventh draw, within
  \<open>[0, 0.5)\<close>, and any other particle has no other rotation.
\<close>

theorem tree_position_ranges:
  "unit_draw (g 3) \<Longrightarrow> unit_draw (g 4) \<Longrightarrow> unit_draw (g 5) \<Longrightarrow> unit_draw (g 6) \<Longrightarrow>
   (let q = fst (calculatePositions p g);
        h = g 3;
        radius = 12 * (1 - h) + 0.5;
        angle = h * 50;
        jx = g 4 - 0.5;
        jz = g 5 - 0.5
    in vy (treePos q) = h * 30 - 15 \<and> - 15 \<le> vy (treePos q) \<and> vy (treePos q) \<le> 15 \<and>
       vx (treePos q) = cos angle * radius + jx \<and>
       vz (treePos q) = sin angle * radius + jz \<and>
       - 0.5 \<le> jx \<and> jx \<le> 0.5 \<and> - 0.5 \<le> jz \<and> jz \<le> 0.5 \<and>
       Math_hypot (vx (treePos q) - jx) (vz (treePos q) - jz) = radius \<and>
       0.5 \<le> radius \<and> radius \<le> 12.5 \<and>
       ey (treeRot q) = - angle \<and>
       (if type p = CANDY
        then ex (treeRot q) = pi \<and> ez (treeRot q) = g 6 * 0.5 \<and>
             0 \<le> ez (treeRot q) \<and> ez (treeRot q) < 0.5
        else ex (treeRot q) = 0 \<and> ez (treeRot q) = 0))"
proof -
  assume u: "unit_draw (g 3)" "unit_draw (g 4)" "unit_draw (g 5)" "unit_draw (g 6)"
  define radius where "radius = 12 * (1 - g 3) + 0.5"
  have r: "0.5 \<le> radius" "radius \<le> 12.5" "0 \<le> radius"
    using u(1) by (simp_all add: radius_def unit_draw_def)
  have hyp: "Math_hypot (cos (g 3 * 50) * radius) (sin (g 3 * 50) * radius) = radius"
    using r(3) by (rule Math_hypot_circle)
  show ?thesis
    using u r(1,2) hyp
    by (simp add: Let_def calculatePositions_treePos calculatePositions_treeRot unit_draw_def
          radius_def)
qed

theorem tree_position_ranges_witness:
  "unit_draw (halfRng 3) \<and> unit_draw (halfRng 4) \<and> unit_draw (halfRng 5) \<and> unit_draw (halfRng 6) \<and>
   type sampleCandy = CANDY \<and>
   vy (treePos (fst (calculatePositions sampleCandy halfRng))) = 0 \<and>
   ey (treeRot (fst (calculatePositions sampleCandy halfRng))) = - 25 \<and>
   ex (treeRot (fst (calculatePositions sampleCandy halfRng))) = pi \<and>
   ez (treeRot (fst (calculatePositions sampleCandy halfRng))) = 1 / 4"
proof -
  have u: "unit_draw (halfRng n)" for n by (simp add: halfRng_def unit_draw_def)
  have c: "type sampleCandy = CANDY" by (simp add: sampleCandy_def Particle_new_fields)
  from tree_position_ranges [of halfRng sampleCandy, OF u u u u, unfolded Let_def] c
  have "vy (treePos (fst (calculatePositions sampleCandy halfRng))) = halfRng 3 * 30 - 15"
    and "ey (treeRot (fst (calculatePositions sampleCandy halfRng))) = - (halfRng 3 * 50)"
    and "ex (treeRot (fst (calculatePositions sampleCandy halfRng))) = pi"
    and "ez (treeRot (fst (calculatePositions sampleCandy halfRng))) = halfRng 6 * 0.5"
    by simp_all
  then show ?thesis using u c by (simp add: halfRng_def)
qed

text \<open>
  C10. A tick in SCATTER mode leaves the scale of the particle as it was: the branch
  returns before the scale is interpolated.
\<close>

theorem scatter_tick_keeps_scale:
  "mode st = SCATTER \<Longrightarrow> scale (mesh (update slerp st self p dt)) = scale (mesh p)"
  by (simp add: update_SCATTER)

theorem scatter_tick_keeps_scale_witness:
  "mode (stateIn SCATTER None) = SCATTER \<and>
   scale (mesh (update sampleSlerp (stateIn SCATTER None) 0 sampleParticle 0.016))
     = \<lparr>vx = 1, vy = 1, vz = 1\<rparr>"
proof -
  have m: "mode (stateIn SCATTER None) = SCATTER" by (simp add: stateIn_def)
  show ?thesis
    using m scatter_tick_keeps_scale [OF m, of sampleSlerp 0 sampleParticle "0.016"]
    by (simp add: sampleParticle_value)
qed

lemma update_position:
  "position (mesh (update slerp st self p dt))
     = Vector3_lerp (position (mesh p)) (targetPos_of st self p) 0.05"
  by (cases "mode st") (simp_all add: update_def lerpLogic_def targetPos_of_def Let_def)

lemma update_frame:
  "type (update slerp st self p dt) = type p"
  "baseScale (update slerp st self p dt) = baseScale p"
  "treePos (update slerp st self p dt) = treePos p"
  "treeRot (update slerp st self p dt) = treeRot p"
  "scatterPos (update slerp st self p dt) = scatterPos p"
  "scatterVel (update slerp st self p dt) = scatterVel p"
  by (cases "mode st"; simp add: update_def lerpLogic_def Let_def)+

lemma update_targetPos_of:
  "targetPos_of st self (update slerp st self p dt) = targetPos_of st self p"
  by (simp add: targetPos_of_def update_frame)

lemma update_dt: "update slerp st self p dt = update slerp st self p dt'"
  by (simp add: update_def)




lemma animate_STATE: "STATE (animate slerp delta w) = STATE w"
  by (simp add: animate_def Let_def)

lemma animate_particles:
  "particles (animate slerp delta w)
     = map (\<lambda>(i, p). update slerp (STATE w) i p delta) (enumerate 0 (particles w))"
  by (simp add: animate_def Let_def)

lemma animate_length: "length (particles (animate slerp delta w)) = length (particles w)"
  by (simp add: animate_particles)

lemma animate_nth:
  "i < length (particles w) \<Longrightarrow>
   particles (animate slerp delta w) ! i = update slerp (STATE w) i (particles w ! i) delta"
  by (simp add: animate_particles nth_enumerate_eq)

lemma ticks_STATE: "STATE (ticks slerp dts n w) = STATE w"
  by (induction n) (simp_all add: animate_STATE)

lemma ticks_length: "length (particles (ticks slerp dts n w)) = length (particles w)"
  by (induction n) (simp_all add: animate_length)

lemma lerp_gap: "(t::real) - (a + (t - a) * 0.05) = 0.95 * (t - a)"
  by (simp add: algebra_simps diff_divide_distrib)

lemma Math_hypot_0: "Math_hypot a 0 = \<bar>a\<bar>"
  by (simp add: Math_hypot_def)

lemma hand_facts:
  "length (hand a b c d) = 21"
  "pinchDist (hand a b c d) = \<bar>a - b\<bar>"
  "avgTipDist (hand a b c d) = \<bar>b\<bar>"
  "hand a b c d ! 9 = landmark c d"
  by (simp_all add: hand_def pinchDist_def avgTipDist_def landmark_def Let_def Math_hypot_0)

lemma sample_types:
  "type sampleParticle = ORNAMENT" "type samplePhoto = PHOTO" "type sampleCandy = CANDY"
  by (simp_all add: sampleParticle_def samplePhoto_def sampleCandy_def Particle_new_fields)

text \<open>
  A detection tick on a new video frame with a hand of at least 21 landmarks returns
  without an error; it keeps the particles and sets the two rotation signals from the
  palm centre, whatever the gesture.
\<close>

lemma predictWebcam_hand:
  assumes "t \<noteq> lastVideoTime w" "21 \<le> length lm"
  shows "\<exists>w' g'. predictWebcam True t (Some (lm # hands)) w g = Inr (w', g') \<and>
           particles w' = particles w \<and> lastVideoTime w' = t \<and>
           handRotation_y (STATE w') = (lx (lm ! 9) - 0.5) * 2 \<and>
           handRotation_x (STATE w') = (ly (lm ! 9) - 0.5) * 1 \<and>
           mode (STATE w') =
             (if pinchDist lm < 0.05 then FOCUS
              else if avgTipDist lm < 0.25 then TREE
              else if avgTipDist lm > 0.4 then SCATTER
              else mode (STATE w)) \<and>
           (\<not> pinchDist lm < 0.05 \<longrightarrow>
              targetPhoto (STATE w') =
                (if avgTipDist lm < 0.25 \<or> avgTipDist lm > 0.4 then None
                 else targetPhoto (STATE w)) \<and> g' = g)"
  using assms
  by (simp add: predictWebcam_def Let_def split_def Math_random_def)

text \<open>
  C4. On a detection tick with a hand, the mode afterwards is decided in this order: FOCUS
  when the pinch distance is below 0.05, whatever the average tip distance; else TREE
  when the average tip distance is below 0.25; else SCATTER when it is above 0.4; else the
  mode (and the focus target) stay as they were. The four readings of the claim are
  instances; the reading 0.45 is taken like the others, for a pinch distance of at least
  0.05, since a smaller one is a pinch by the order of the tests.
\<close>

theorem gesture_classification:
  "t \<noteq> lastVideoTime w \<Longrightarrow> 21 \<le> length lm \<Longrightarrow>
   \<exists>w' g'. predictWebcam True t (Some (lm # hands)) w g = Inr (w', g') \<and>
     mode (STATE w') =
       (if pinchDist lm < 0.05 then FOCUS
        else if avgTipDist lm < 0.25 then TREE
        else if avgTipDist lm > 0.4 then SCATTER
        else mode (STATE w)) \<and>
     (pinchDist lm = 0.03 \<longrightarrow> mode (STATE w') = FOCUS) \<and>
     (avgTipDist lm = 0.20 \<and> 0.05 \<le> pinchDist lm \<longrightarrow> mode (STATE w') = TREE) \<and>
     (avgTipDist lm = 0.45 \<and> 0.05 \<le> pinchDist lm \<longrightarrow> mode (STATE w') = SCATTER) \<and>
     (avgTipDist lm = 0.30 \<and> pinchDist lm = 0.10 \<longrightarrow>
        mode (STATE w') = mode (STATE w) \<and> targetPhoto (STATE w') = targetPhoto (STATE w))"
proof -
  assume a: "t \<noteq> lastVideoTime w" "21 \<le> length lm"
  from predictWebcam_hand [OF a, of hands g]
  obtain w' g' where r: "predictWebcam True t (Some (lm # hands)) w g = Inr (w', g')"
    and m: "mode (STATE w') =
             (if pinchDist lm < 0.05 then FOCUS
              else if avgTipDist lm < 0.25 then TREE
              else if avgTipDist lm > 0.4 then SCATTER
              else mode (STATE w))"
    and tp: "\<not> pinchDist lm < 0.05 \<longrightarrow>
              targetPhoto (STATE w') =
                (if avgTipDist lm < 0.25 \<or> avgTipDist lm > 0.4 then None
                 else targetPhoto (STATE w)) \<and> g' = g"
    by blast
  have "pinchDist lm = 0.03 \<longrightarrow> mode (STATE w') = FOCUS"
    using m by simp
  moreover have "avgTipDist lm = 0.20 \<and> 0.05 \<le> pinchDist lm \<longrightarrow> mode (STATE w') = TREE"
    using m by simp
  moreover have "avgTipDist lm = 0.45 \<and> 0.05 \<le> pinchDist lm \<longrightarrow> mode (STATE w') = SCATTER"
    using m by simp
  moreover have "avgTipDist lm = 0.30 \<and> pinchDist lm = 0.10 \<longrightarrow>
        mode (STATE w') = mode (STATE w) \<and> targetPhoto (STATE w') = targetPhoto (STATE w)"
    using m tp by simp
  ultimately show ?thesis using r m by blast
qed

theorem gesture_classification_witness:
  "(\<exists>w' g'. predictWebcam True 0 (Some [pinchHand]) (worldOf (stateIn SCATTER None) [sampleParticle]) zeroRng
        = Inr (w', g') \<and> pinchDist pinchHand = 0.03 \<and> mode (STATE w') = FOCUS) \<and>
   (\<exists>w' g'. predictWebcam True 0 (Some [fistHand]) (worldOf (stateIn SCATTER None) [sampleParticle]) zeroRng
        = Inr (w', g') \<and> avgTipDist fistHand = 0.20 \<and> 0.05 \<le> pinchDist fistHand \<and>
          mode (STATE w') = TREE) \<and>
   (\<exists>w' g'. predictWebcam True 0 (Some [openHand]) (worldOf (stateIn TREE None) [sampleParticle]) zeroRng
        = Inr (w', g') \<and> avgTipDist openHand = 0.45 \<and> 0.05 \<le> pinchDist openHand \<and>
          mode (STATE w') = SCATTER) \<and>
   (\<exists>w' g'. predictWebcam True 0 (Some [ambiguousHand]) (worldOf (stateIn SCATTER None) [sampleParticle]) zeroRng
        = Inr (w', g') \<and> avgTipDist ambiguousHand = 0.30 \<and> pinchDist ambiguousHand = 0.10 \<and>
          mode (STATE w') = SCATTER)"
proof -
  have t: "0 \<noteq> lastVideoTime (worldOf st ps)" for st ps by (simp add: worldOf_def)
  have l: "21 \<le> length pinchHand" "21 \<le> length fistHand" "21 \<le> length openHand"
    "21 \<le> length ambiguousHand"
    by (simp_all add: pinchHand_def fistHand_def openHand_def ambiguousHand_def hand_facts)
  have m: "mode (STATE (worldOf (stateIn md tp) ps)) = md" for md tp ps
    by (simp add: worldOf_def stateIn_def)
  have p: "pinchDist pinchHand = 0.03" "avgTipDist fistHand = 0.20" "0.05 \<le> pinchDist fistHand"
    "avgTipDist openHand = 0.45" "0.05 \<le> pinchDist openHand"
    "avgTipDist ambiguousHand = 0.30" "pinchDist ambiguousHand = 0.10"
    by (simp_all add: pinchHand_def fistHand_def openHand_def ambiguousHand_def hand_facts)
  have "\<exists>w' g'. predictWebcam True 0 (Some [pinchHand]) (worldOf (stateIn SCATTER None) [sampleParticle]) zeroRng
        = Inr (w', g') \<and> pinchDist pinchHand = 0.03 \<and> mode (STATE w') = FOCUS"
    using gesture_classification [of 0 "worldOf (stateIn SCATTER None) [sampleParticle]" pinchHand "[]" zeroRng] t l p
    by blast
  moreover
  have "\<exists>w' g'. predictWebcam True 0 (Some [fistHand]) (worldOf (stateIn SCATTER None) [sampleParticle]) zeroRng
        = Inr (w', g') \<and> avgTipDist fistHand = 0.20 \<and> 0.05 \<le> pinchDist fistHand \<and>
          mode (STATE w') = TREE"
    using gesture_classification [of 0 "worldOf (stateIn SCATTER None) [sampleParticle]" fistHand "[]" zeroRng] t l p
    by blast
  moreover
  have "\<exists>w' g'. predictWebcam True 0 (Some [openHand]) (worldOf (stateIn TREE None) [sampleParticle]) zeroRng
        = Inr (w', g') \<and> avgTipDist openHand = 0.45 \<and> 0.05 \<le> pinchDist openHand \<and>
          mode (STATE w') = SCATTER"
    using gesture_classification [of 0 "worldOf (stateIn TREE None) [sampleParticle]" openHand "[]" zeroRng] t l p
    by blast
  moreover
  have "\<exists>w' g'. predictWebcam True 0 (Some [ambiguousHand]) (worldOf (stateIn SCATTER None) [sampleParticle]) zeroRng
        = Inr (w', g') \<and> avgTipDist ambiguousHand = 0.30 \<and> pinchDist ambiguousHand = 0.10 \<and>
          mode (STATE w') = SCATTER"
    using gesture_classification [of 0 "worldOf (stateIn SCATTER None) [sampleParticle]" ambiguousHand "[]" zeroRng] t l p m
    by metis
  ultimately show ?thesis by blast
qed

text \<open>
  C9. On a detection tick with a hand, whatever the gesture, \<^verbatim>\<open>STATE.handRotation.y\<close> (the
  left and right signal) becomes \<open>(palmX - 0.5) * 2\<close> and \<^verbatim>\<open>STATE.handRotation.x\<close> (the up
  and down signal) becomes \<open>(palmY - 0.5) * 1\<close>, for the landmark of index 9.
\<close>

theorem pointer_signal:
  "t \<noteq> lastVideoTime w \<Longrightarrow> 21 \<le> length lm \<Longrightarrow>
   \<exists>w' g'. predictWebcam True t (Some (lm # hands)) w g = Inr (w', g') \<and>
     handRotation_y (STATE w') = (lx (lm ! 9) - 0.5) * 2 \<and>
     handRotation_x (STATE w') = (ly (lm ! 9) - 0.5) * 1"
proof -
  assume a: "t \<noteq> lastVideoTime w" "21 \<le> length lm"
  from predictWebcam_hand [OF a, of hands g] show ?thesis by blast
qed

theorem pointer_signal_witness:
  "0 \<noteq> lastVideoTime (worldOf (stateIn TREE None) [sampleParticle]) \<and>
   21 \<le> length ambiguousHand \<and>
   (\<exists>w' g'. predictWebcam True 0 (Some [ambiguousHand]) (worldOf (stateIn TREE None) [sampleParticle]) zeroRng
      = Inr (w', g') \<and> handRotation_y (STATE w') = 1 / 2 \<and> handRotation_x (STATE w') = - 1 / 4)"
proof -
  have t: "0 \<noteq> lastVideoTime (worldOf (stateIn TREE None) [sampleParticle])"
    by (simp add: worldOf_def)
  have l: "21 \<le> length ambiguousHand" by (simp add: ambiguousHand_def hand_facts)
  have p: "(lx (ambiguousHand ! 9) - 0.5) * 2 = 1 / 2" "(ly (ambiguousHand ! 9) - 0.5) * 1 = - 1 / 4"
    by (simp_all add: ambiguousHand_def hand_facts landmark_def)
  from pointer_signal [OF t l, of "[]" zeroRng]
  have "\<exists>w' g'. predictWebcam True 0 (Some [ambiguousHand]) (worldOf (stateIn TREE None) [sampleParticle]) zeroRng
      = Inr (w', g') \<and> handRotation_y (STATE w') = 1 / 2 \<and> handRotation_x (STATE w') = - 1 / 4"
    unfolding p .
  then show ?thesis using t l by blast
qed

lemma pick_floor:
  assumes "0 \<le> r" "0 < n"
  shows "nat \<lfloor>r * real n\<rfloor> = k \<longleftrightarrow> real k / real n \<le> r \<and> r < (real k + 1) / real n"
proof -
  have x: "0 \<le> \<lfloor>r * real n\<rfloor>" using assms by simp
  have "nat \<lfloor>r * real n\<rfloor> = k \<longleftrightarrow> \<lfloor>r * real n\<rfloor> = int k"
    using x by (simp only: nat_eq_iff if_True)
  also have "\<dots> \<longleftrightarrow> real k \<le> r * real n \<and> r * real n < real k + 1"
    by (simp add: floor_eq_iff)
  also have "\<dots> \<longleftrightarrow> real k / real n \<le> r \<and> r < (real k + 1) / real n"
    using assms(2) by (simp add: pos_divide_le_eq pos_less_divide_eq)
  finally show ?thesis .
qed

lemma pick_bound:
  assumes "0 \<le> r" "r < 1" "0 < n"
  shows "nat \<lfloor>r * real n\<rfloor> < n"
proof -
  have x: "0 \<le> \<lfloor>r * real n\<rfloor>" using assms by simp
  have "r * real n < real n" using assms by simp
  then have "\<lfloor>r * real n\<rfloor> < int n" by (simp add: floor_less_iff)
  then show ?thesis using x by (simp only: nat_less_iff)
qed

lemma photos_facts:
  assumes "photos = filter (\<lambda>i. type (ps ! i) = PHOTO) [0 ..< length ps]"
  shows "distinct photos"
    and "k < length photos \<Longrightarrow> photos ! k < length ps \<and> type (ps ! (photos ! k)) = PHOTO"
proof -
  show "distinct photos" by (simp add: assms)
  assume "k < length photos"
  then have "photos ! k \<in> set photos" by simp
  then show "photos ! k < length ps \<and> type (ps ! (photos ! k)) = PHOTO"
    by (simp add: assms)
qed

lemma predictWebcam_pinch:
  assumes "t \<noteq> lastVideoTime w" "21 \<le> length lm" "pinchDist lm < 0.05"
  shows "\<exists>w' g'. predictWebcam True t (Some (lm # hands)) w g = Inr (w', g') \<and>
           mode (STATE w') = FOCUS \<and> particles w' = particles w \<and>
           (targetPhoto (STATE w'), g') =
             (let photos = filter (\<lambda>i. type (particles w ! i) = PHOTO) [0 ..< length (particles w)]
              in if targetPhoto (STATE w) = None \<and> photos \<noteq> []
                 then (Some (photos ! nat \<lfloor>g 0 * real (length photos)\<rfloor>), \<lambda>n. g (Suc n))
                 else (targetPhoto (STATE w), g))"
  using assms
  by (simp add: predictWebcam_def Let_def split_def Math_random_def)

lemma sample_photos:
  "filter (\<lambda>i. type ([sampleParticle, samplePhoto, samplePhoto] ! i) = PHOTO)
     [0 ..< length [sampleParticle, samplePhoto, samplePhoto]] = [1, 2]"
proof -
  have "[0 ..< length [sampleParticle, samplePhoto, samplePhoto]] = [0, 1, 2]"
    by (simp add: upt_rec)
  then show ?thesis by (simp add: sample_types)
qed

text \<open>
  C5. On a detection tick with a pinch the mode becomes FOCUS and no error is raised.
  With no focus target and \<open>n > 0\<close> photos, \<open>photos\<close> being the indices of the particles of
  type PHOTO in their order, the target becomes the photo of position \<open>\<lfloor>r n\<rfloor>\<close> in
  \<open>photos\<close> for the next draw \<open>r\<close>: it is a particle of type PHOTO, and photo \<open>k\<close> is the one
  chosen exactly when \<open>k / n \<le> r < (k + 1) / n\<close>, so each photo answers to an interval of
  draws of the same length \<open>1 / n\<close>, which is what a uniform choice is for a uniform draw.
  With no focus target and no photo the target stays unset. With a focus target, the
  target stays and no draw is made.
\<close>

theorem focus_pick:
  "t \<noteq> lastVideoTime w \<Longrightarrow> 21 \<le> length lm \<Longrightarrow> pinchDist lm < 0.05 \<Longrightarrow> unit_draw (g 0) \<Longrightarrow>
   (let photos = filter (\<lambda>i. type (particles w ! i) = PHOTO) [0 ..< length (particles w)];
        n = length photos
    in \<exists>w' g'. predictWebcam True t (Some (lm # hands)) w g = Inr (w', g') \<and>
         mode (STATE w') = FOCUS \<and> particles w' = particles w \<and>
         (case targetPhoto (STATE w) of
            Some j \<Rightarrow> targetPhoto (STATE w') = Some j \<and> g' = g
          | None \<Rightarrow>
              if n = 0 then targetPhoto (STATE w') = None \<and> g' = g
              else (\<exists>k<n. targetPhoto (STATE w') = Some (photos ! k) \<and>
                           photos ! k < length (particles w) \<and>
                           type (particles w ! (photos ! k)) = PHOTO) \<and>
                   (\<forall>k<n. targetPhoto (STATE w') = Some (photos ! k) \<longleftrightarrow>
                           real k / real n \<le> g 0 \<and> g 0 < (real k + 1) / real n) \<and>
                   g' = (\<lambda>i. g (Suc i))))"
proof -
  assume a: "t \<noteq> lastVideoTime w" "21 \<le> length lm" "pinchDist lm < 0.05"
    and u: "unit_draw (g 0)"
  define photos where "photos = filter (\<lambda>i. type (particles w ! i) = PHOTO) [0 ..< length (particles w)]"
  define n where "n = length photos"
  from predictWebcam_pinch [OF a, of hands g]
  obtain w' g' where r: "predictWebcam True t (Some (lm # hands)) w g = Inr (w', g')"
    and m: "mode (STATE w') = FOCUS" and ps: "particles w' = particles w"
    and tp: "(targetPhoto (STATE w'), g') =
               (if targetPhoto (STATE w) = None \<and> photos \<noteq> []
                then (Some (photos ! nat \<lfloor>g 0 * real n\<rfloor>), \<lambda>i. g (Suc i))
                else (targetPhoto (STATE w), g))"
    unfolding Let_def photos_def n_def by blast
  have g0: "0 \<le> g 0" "g 0 < 1" using u by (simp_all add: unit_draw_def)
  have tail: "case targetPhoto (STATE w) of
            Some j \<Rightarrow> targetPhoto (STATE w') = Some j \<and> g' = g
          | None \<Rightarrow>
              if n = 0 then targetPhoto (STATE w') = None \<and> g' = g
              else (\<exists>k<n. targetPhoto (STATE w') = Some (photos ! k) \<and>
                           photos ! k < length (particles w) \<and>
                           type (particles w ! (photos ! k)) = PHOTO) \<and>
                   (\<forall>k<n. targetPhoto (STATE w') = Some (photos ! k) \<longleftrightarrow>
                           real k / real n \<le> g 0 \<and> g 0 < (real k + 1) / real n) \<and>
                   g' = (\<lambda>i. g (Suc i))"
  proof (cases "targetPhoto (STATE w)")
    case (Some j)
    then show ?thesis using tp by simp
  next
    case None
    show ?thesis
    proof (cases "n = 0")
      case True
      then show ?thesis using tp None by (simp add: n_def)
    next
      case False
      then have n0: "0 < n" by simp
      then have ne: "photos \<noteq> []" by (auto simp add: n_def)
      define c where "c = nat \<lfloor>g 0 * real n\<rfloor>"
      have c: "c < n" unfolding c_def using g0 n0 by (rule pick_bound)
      have t': "targetPhoto (STATE w') = Some (photos ! c)" and g': "g' = (\<lambda>i. g (Suc i))"
        using tp None ne by (simp_all add: c_def)
      have ok: "photos ! c < length (particles w) \<and> type (particles w ! (photos ! c)) = PHOTO"
        using photos_facts(2) [OF photos_def, of c] c by (simp add: n_def)
      have uni: "targetPhoto (STATE w') = Some (photos ! k) \<longleftrightarrow>
                   real k / real n \<le> g 0 \<and> g 0 < (real k + 1) / real n" if k: "k < n" for k
      proof -
        have "photos ! c = photos ! k \<longleftrightarrow> c = k"
          using photos_facts(1) [OF photos_def] c k
          by (simp add: nth_eq_iff_index_eq n_def)
        then have "targetPhoto (STATE w') = Some (photos ! k) \<longleftrightarrow> c = k"
          by (simp add: t')
        also have "\<dots> \<longleftrightarrow> real k / real n \<le> g 0 \<and> g 0 < (real k + 1) / real n"
          unfolding c_def using g0(1) n0 by (rule pick_floor)
        finally show ?thesis .
      qed
      have "\<exists>k<n. targetPhoto (STATE w') = Some (photos ! k) \<and>
                           photos ! k < length (particles w) \<and>
                           type (particles w ! (photos ! k)) = PHOTO"
        using c t' ok by blast
      then show ?thesis using None False uni g' by simp
    qed
  qed
  show ?thesis
    unfolding Let_def photos_def [symmetric] n_def [symmetric]
    using r m ps tail by blast
qed

theorem focus_pick_witness:
  "(\<exists>w' g'. predictWebcam True 0 (Some [pinchHand])
               (worldOf (stateIn TREE None) [sampleParticle, samplePhoto, samplePhoto]) halfRng
             = Inr (w', g') \<and> mode (STATE w') = FOCUS \<and> targetPhoto (STATE w') = Some 2) \<and>
   (\<exists>w' g'. predictWebcam True 0 (Some [pinchHand])
               (worldOf (stateIn TREE None) [sampleParticle]) halfRng
             = Inr (w', g') \<and> mode (STATE w') = FOCUS \<and> targetPhoto (STATE w') = None) \<and>
   (\<exists>w' g'. predictWebcam True 0 (Some [pinchHand])
               (worldOf (stateIn FOCUS (Some 1)) [sampleParticle, samplePhoto, samplePhoto]) halfRng
             = Inr (w', g') \<and> mode (STATE w') = FOCUS \<and> targetPhoto (STATE w') = Some 1)"
proof -
  have t: "0 \<noteq> lastVideoTime (worldOf st ps)" for st ps by (simp add: worldOf_def)
  have l: "21 \<le> length pinchHand" by (simp add: pinchHand_def hand_facts)
  have p: "pinchDist pinchHand < 0.05" by (simp add: pinchHand_def hand_facts)
  have u: "unit_draw (halfRng 0)" by (simp add: halfRng_def unit_draw_def)
  have ph2: "filter (\<lambda>i. type (particles (worldOf st [sampleParticle, samplePhoto, samplePhoto]) ! i) = PHOTO)
               [0 ..< length (particles (worldOf st [sampleParticle, samplePhoto, samplePhoto]))] = [1, 2]"
    for st
    using sample_photos by (simp add: worldOf_def)
  have ph0: "filter (\<lambda>i. type (particles (worldOf st [sampleParticle]) ! i) = PHOTO)
               [0 ..< length (particles (worldOf st [sampleParticle]))] = []" for st
    by (simp add: worldOf_def sample_types)
  have tp: "targetPhoto (STATE (worldOf (stateIn md x) ps)) = x" for md x ps
    by (simp add: worldOf_def stateIn_def)
  from focus_pick [of 0 "worldOf (stateIn TREE None) [sampleParticle, samplePhoto, samplePhoto]" pinchHand halfRng "[]",
      OF t l p u, unfolded Let_def ph2 tp]
  obtain w' g' where r: "predictWebcam True 0 (Some [pinchHand])
               (worldOf (stateIn TREE None) [sampleParticle, samplePhoto, samplePhoto]) halfRng
             = Inr (w', g')" and m: "mode (STATE w') = FOCUS"
    and k: "\<forall>k<length [1::nat, 2]. targetPhoto (STATE w') = Some ([1, 2] ! k) \<longleftrightarrow>
              real k / real (length [1::nat, 2]) \<le> halfRng 0 \<and>
              halfRng 0 < (real k + 1) / real (length [1::nat, 2])"
    by auto
  have "targetPhoto (STATE w') = Some 2"
    using k [rule_format, of 1] by (simp add: halfRng_def)
  with r m have A: "\<exists>w' g'. predictWebcam True 0 (Some [pinchHand])
               (worldOf (stateIn TREE None) [sampleParticle, samplePhoto, samplePhoto]) halfRng
             = Inr (w', g') \<and> mode (STATE w') = FOCUS \<and> targetPhoto (STATE w') = Some 2"
    by blast
  from focus_pick [of 0 "worldOf (stateIn TREE None) [sampleParticle]" pinchHand halfRng "[]",
      OF t l p u, unfolded Let_def ph0 tp]
  have B: "\<exists>w' g'. predictWebcam True 0 (Some [pinchHand])
               (worldOf (stateIn TREE None) [sampleParticle]) halfRng
             = Inr (w', g') \<and> mode (STATE w') = FOCUS \<and> targetPhoto (STATE w') = None"
    by auto
  from focus_pick [of 0 "worldOf (stateIn FOCUS (Some 1)) [sampleParticle, samplePhoto, samplePhoto]" pinchHand halfRng "[]",
      OF t l p u, unfolded Let_def ph2 tp]
  have C: "\<exists>w' g'. predictWebcam True 0 (Some [pinchHand])
               (worldOf (stateIn FOCUS (Some 1)) [sampleParticle, samplePhoto, samplePhoto]) halfRng
             = Inr (w', g') \<and> mode (STATE w') = FOCUS \<and> targetPhoto (STATE w') = Some 1"
    by auto
  from A B C show ?thesis by blast
qed

lemma addMesh_facts:
  "particles (fst (fst (addMesh m ty w g))) = particles w @ [fst (Particle_new m ty g)]"
  "snd (fst (addMesh m ty w g)) = length (particles w)"
  "STATE (fst (fst (addMesh m ty w g))) = STATE w"
  "snd (addMesh m ty w g) = snd (Particle_new m ty g)"
  by (simp_all add: addMesh_def split_def Let_def)

lemma addPhotoToScene_particles:
  "particles (fst (addPhotoToScene w g))
     = particles w @ [fst (calculatePositions (fst (Particle_new photoGroup PHOTO g))
                            (snd (Particle_new photoGroup PHOTO g)))]"
  by (simp add: addPhotoToScene_def split_def Let_def addMesh_facts)

lemma addPhotoToScene_STATE: "STATE (fst (addPhotoToScene w g)) = STATE w"
  by (simp add: addPhotoToScene_def split_def Let_def addMesh_facts)

lemma fileInput_onload_facts:
  "STATE (fst (fileInput_onload w g)) = (STATE w)\<lparr>mode := TREE\<rparr>"
  "particles (fst (fileInput_onload w g)) = particles (fst (addPhotoToScene w g))"
  by (simp_all add: fileInput_onload_def split_def Let_def addPhotoToScene_STATE)

lemma Particle_new_rng:
  "snd (Particle_new m t g) = (if t = CANDY then (\<lambda>n. g (n + 12)) else (\<lambda>n. g (n + 11)))"
  by (auto simp add: Particle_new_def Math_random_def Let_def split_def calculatePositions_rng
        eval_nat_numeral)

lemma Particle_new_treePos_y:
  "vy (treePos (fst (Particle_new m t g))) = g 6 * 30 - 15"
  by (simp add: Particle_new_def Math_random_def Let_def split_def calculatePositions_treePos
        eval_nat_numeral)

lemma targets_update: "targets (update slerp st self p dt) = targets p"
  by (simp add: targets_def update_frame)

lemma animate_targets:
  "map targets (particles (animate slerp delta w)) = map targets (particles w)"
  by (rule nth_equalityI) (simp_all add: animate_length animate_nth targets_update)

lemma ticks_targets:
  "map targets (particles (ticks slerp dts n w)) = map targets (particles w)"
  by (induction n) (simp_all add: animate_targets)

lemma predictWebcam_particles:
  "predictWebcam hl t lms w g = Inr (w', g') \<Longrightarrow> particles w' = particles w"
  by (auto simp add: predictWebcam_def Let_def split_def
        split: if_splits option.splits list.splits)

text \<open>
  A FIST or OPEN reading leaves FOCUS with the focus target cleared: the part of C1 that
  the gesture branches do keep.
\<close>

lemma gesture_leaving_FOCUS_clears_target:
  assumes "t \<noteq> lastVideoTime w" "21 \<le> length lm" "\<not> pinchDist lm < 0.05"
    "avgTipDist lm < 0.25 \<or> avgTipDist lm > 0.4"
  shows "\<exists>w' g'. predictWebcam True t (Some (lm # hands)) w g = Inr (w', g') \<and>
           mode (STATE w') \<noteq> FOCUS \<and> targetPhoto (STATE w') = None"
  using assms
  by (auto simp add: predictWebcam_def Let_def split_def)

text \<open>
  C1. The claim has the focus target cleared by every operation that sets the mode to TREE
  or SCATTER. The two gesture branches clear it; the upload callback sets the mode to TREE
  and leaves \<^verbatim>\<open>STATE.targetPhoto\<close> as it was. Here a pinch on a scene of one photo enters
  FOCUS with that photo as the target, and an upload right after it leaves the mode TREE
  with the target still set.
\<close>

theorem upload_keeps_focus_target:
  "\<exists>w' g'. predictWebcam True 0 (Some [pinchHand]) (worldOf (stateIn TREE None) [samplePhoto]) zeroRng
             = Inr (w', g') \<and>
     mode (STATE w') = FOCUS \<and> targetPhoto (STATE w') = Some 0 \<and>
     mode (STATE (fst (fileInput_onload w' g'))) = TREE \<and>
     targetPhoto (STATE (fst (fileInput_onload w' g'))) = Some 0"
proof -
  have t: "0 \<noteq> lastVideoTime (worldOf (stateIn TREE None) [samplePhoto])"
    by (simp add: worldOf_def)
  have l: "21 \<le> length pinchHand" by (simp add: pinchHand_def hand_facts)
  have p: "pinchDist pinchHand < 0.05" by (simp add: pinchHand_def hand_facts)
  from predictWebcam_pinch [OF t l p, of "[]" zeroRng]
  obtain w' g' where r: "predictWebcam True 0 (Some [pinchHand])
        (worldOf (stateIn TREE None) [samplePhoto]) zeroRng = Inr (w', g')"
    and m: "mode (STATE w') = FOCUS"
    and tp: "targetPhoto (STATE w') = Some 0"
    by (auto simp add: worldOf_def stateIn_def sample_types zeroRng_def)
  show ?thesis
    using r m tp by (auto simp add: fileInput_onload_facts)
qed

text \<open>
  C2. The claim has the layout targets of every object computed once, at construction,
  and in particular those of a registered photo computed only once. \<^verbatim>\<open>addPhotoToScene\<close>
  runs \<^verbatim>\<open>calculatePositions\<close> again on the particle the constructor returned, with fresh
  draws: for the draws \<open>stepRng\<close> the constructor puts the tree position at height
  \<open>- 15\<close> and the registered photo ends with it at height 0.
\<close>

theorem registered_photo_layout_counterexample:
  "vy (treePos (fst (Particle_new photoGroup PHOTO stepRng))) = - 15 \<and>
   vy (treePos (last (particles (fst (addPhotoToScene (worldOf (stateIn TREE None) []) stepRng))))) = 0 \<and>
   targets (last (particles (fst (addPhotoToScene (worldOf (stateIn TREE None) []) stepRng))))
     \<noteq> targets (fst (Particle_new photoGroup PHOTO stepRng))"
proof -
  have a: "vy (treePos (fst (Particle_new photoGroup PHOTO stepRng))) = - 15"
    by (simp add: Particle_new_treePos_y stepRng_def)
  have b: "vy (treePos (last (particles (fst (addPhotoToScene (worldOf (stateIn TREE None) []) stepRng)))))
             = 0"
    by (simp add: addPhotoToScene_particles calculatePositions_treePos Particle_new_rng stepRng_def)
  have "treePos (last (particles (fst (addPhotoToScene (worldOf (stateIn TREE None) []) stepRng))))
          \<noteq> treePos (fst (Particle_new photoGroup PHOTO stepRng))"
    using a b by auto
  then show ?thesis using a b by (simp add: targets_def)
qed

text \<open>
  C2, amended. The layout targets of a particle are written by \<^verbatim>\<open>calculatePositions\<close>
  alone. It runs once inside the constructor, so a particle pushed by \<^verbatim>\<open>addMesh\<close> has the
  targets of one run; a photo registered by \<^verbatim>\<open>addPhotoToScene\<close>, and so by an upload, is
  the constructed particle after a second run, and the targets of the second run are the
  ones it keeps. Registration leaves the particles already there as they are, and
  afterwards no integration tick and no detection tick changes the targets of any
  particle.
\<close>

theorem layout_targets_after_registration:
  "map targets (particles (animate slerp delta w)) = map targets (particles w) \<and>
   (\<forall>n. map targets (particles (ticks slerp dts n w)) = map targets (particles w)) \<and>
   (\<forall>w' g'. predictWebcam hl t lms w g = Inr (w', g') \<longrightarrow> particles w' = particles w) \<and>
   particles (fst (fst (addMesh m ty w g))) = particles w @ [fst (Particle_new m ty g)] \<and>
   (\<exists>p0. type p0 = ty \<and>
      targets (fst (Particle_new m ty g)) = targets (fst (calculatePositions p0 (\<lambda>n. g (n + 3))))) \<and>
   particles (fst (addPhotoToScene w g))
     = particles w @ [fst (calculatePositions (fst (Particle_new photoGroup PHOTO g))
                            (snd (Particle_new photoGroup PHOTO g)))] \<and>
   particles (fst (fileInput_onload w g)) = particles (fst (addPhotoToScene w g))"
proof -
  have c: "\<exists>p0. type p0 = ty \<and>
      targets (fst (Particle_new m ty g)) = targets (fst (calculatePositions p0 (\<lambda>n. g (n + 3))))"
    by (rule exI, rule conjI [OF _ Particle_new_targets]) simp
  have d: "\<forall>w' g'. predictWebcam hl t lms w g = Inr (w', g') \<longrightarrow> particles w' = particles w"
    using predictWebcam_particles by blast
  show ?thesis
    using c d
    by (simp add: animate_targets ticks_targets addMesh_facts addPhotoToScene_particles
          fileInput_onload_facts)
qed

theorem layout_targets_after_registration_witness:
  "(\<exists>w' g'. predictWebcam True 0 (Some [openHand]) (worldOf (stateIn TREE None) [samplePhoto]) zeroRng
       = Inr (w', g') \<and> particles w' = [samplePhoto]) \<and>
   map targets (particles (animate sampleSlerp 0.016 (worldOf (stateIn TREE None) [samplePhoto])))
     = [targets samplePhoto]"
proof -
  define w where "w = worldOf (stateIn TREE None) [samplePhoto]"
  have ps: "particles w = [samplePhoto]" by (simp add: w_def worldOf_def)
  have t: "0 \<noteq> lastVideoTime w" by (simp add: w_def worldOf_def)
  have l: "21 \<le> length openHand" by (simp add: openHand_def hand_facts)
  note th = layout_targets_after_registration
    [of sampleSlerp "0.016" w "\<lambda>n. 0.016" True 0 "Some [openHand]" zeroRng photoGroup PHOTO]
  from predictWebcam_hand [OF t l, of "[]" zeroRng]
  obtain w' g' where r: "predictWebcam True 0 (Some [openHand]) w zeroRng = Inr (w', g')"
    by blast
  from th r have "particles w' = particles w" by blast
  with r ps have A: "\<exists>w' g'. predictWebcam True 0 (Some [openHand]) w zeroRng
       = Inr (w', g') \<and> particles w' = [samplePhoto]"
    by auto
  from th have "map targets (particles (animate sampleSlerp 0.016 w)) = map targets (particles w)"
    by blast
  then have B: "map targets (particles (animate sampleSlerp 0.016 w)) = [targets samplePhoto]"
    by (simp add: ps)
  from A B show ?thesis unfolding w_def by blast
qed

lemma rne_cases:
  "rne w = \<lfloor>w\<rfloor> \<or> rne w = \<lfloor>w\<rfloor> + 1"
  by (simp add: rne_def Let_def)

lemma rne_error: "\<bar>of_int (rne w) - w\<bar> \<le> 1 / 2"
  unfolding rne_def Let_def by (auto; linarith)

lemma rne_of_int: "rne (of_int k) = k"
  by (simp add: rne_def Let_def)

lemma rne_mono: "a \<le> b \<Longrightarrow> rne a \<le> rne b"
proof -
  assume ab: "a \<le> b"
  have fl: "\<lfloor>a\<rfloor> \<le> \<lfloor>b\<rfloor>" using ab by (rule floor_mono)
  show ?thesis
  proof (cases "\<lfloor>a\<rfloor> = \<lfloor>b\<rfloor>")
    case True
    then show ?thesis using ab unfolding rne_def Let_def by (auto; linarith)
  next
    case False
    then have "\<lfloor>a\<rfloor> + 1 \<le> \<lfloor>b\<rfloor>" using fl by simp
    moreover have "rne a \<le> \<lfloor>a\<rfloor> + 1" using rne_cases [of a] by auto
    moreover have "\<lfloor>b\<rfloor> \<le> rne b" using rne_cases [of b] by auto
    ultimately show ?thesis by linarith
  qed
qed

lemma rne_nonneg: "0 \<le> w \<Longrightarrow> 0 \<le> rne w \<and> of_int (rne w) \<le> 2 * w"
proof -
  assume w: "0 \<le> w"
  have a: "0 \<le> rne w" using rne_mono [OF w] by (simp add: rne_def)
  consider "w < 1 / 2" | "w = 1 / 2" | "1 / 2 < w" by linarith
  then have "of_int (rne w) \<le> 2 * w"
  proof cases
    case 1
    then have "\<lfloor>w\<rfloor> = 0" using w by (simp add: floor_eq_iff)
    then show ?thesis using 1 w by (simp add: rne_def Let_def)
  next
    case 2
    have "rne (1 / 2) = 0" by (simp add: rne_def)
    then show ?thesis unfolding 2 by simp
  next
    case 3
    then show ?thesis using rne_error [of w] by linarith
  qed
  with a show ?thesis by simp
qed

lemma rne_minus: "rne (- w) = - rne w"
proof (cases "w \<in> \<int>")
  case True
  then obtain k where "w = of_int k" by (auto elim: Ints_cases)
  then show ?thesis using rne_of_int [of "- k"] rne_of_int [of k] by simp
next
  case False
  have ne: "w \<noteq> of_int \<lfloor>w\<rfloor>"
  proof
    assume "w = of_int \<lfloor>w\<rfloor>"
    with False show False by (metis Ints_of_int)
  qed
  then have f: "\<lfloor>- w\<rfloor> = - \<lfloor>w\<rfloor> - 1"
    by (simp add: floor_minus ceiling_altdef)
  show ?thesis
    unfolding rne_def Let_def f by (auto; linarith?)
qed


lemma ulp64_pos: "0 < ulp64 x"
  by (simp add: ulp64_def)

lemma ulp64_minus: "ulp64 (- x) = ulp64 x"
  by (simp add: ulp64_def)

lemma round64_0: "round64 0 = 0"
  by (simp add: round64_def)

lemma round64_minus: "round64 (- x) = - round64 x"
  by (simp add: round64_def ulp64_minus rne_minus)

lemma scale_le: "0 < u \<Longrightarrow> k \<le> 2 * (x / u) \<Longrightarrow> k * u \<le> 2 * (x :: real)"
  by (simp add: field_simps)

lemma scale_abs: "0 < u \<Longrightarrow> \<bar>k * u - x\<bar> = \<bar>k - x / u\<bar> * (u :: real)"
proof -
  assume u: "0 < u"
  then have "k * u - x = (k - x / u) * u" by (simp add: field_simps)
  then show ?thesis using u by (simp only: abs_mult abs_of_pos)
qed

lemma round64_nonneg: "0 \<le> x \<Longrightarrow> 0 \<le> round64 x \<and> round64 x \<le> 2 * x"
proof -
  assume x: "0 \<le> x"
  have w: "0 \<le> x / ulp64 x" using x ulp64_pos [of x] by simp
  from rne_nonneg [OF w]
  have a: "0 \<le> of_int (rne (x / ulp64 x)) * ulp64 x"
    using ulp64_pos [of x] by simp
  have b: "of_int (rne (x / ulp64 x)) * ulp64 x \<le> 2 * x"
    using rne_nonneg [OF w] by (intro scale_le ulp64_pos) simp
  from a b show ?thesis by (simp add: round64_def)
qed

lemma round64_abs_le: "\<bar>round64 x\<bar> \<le> 2 * \<bar>x\<bar>"
proof (cases "0 \<le> x")
  case True
  then show ?thesis using round64_nonneg [of x] by simp
next
  case False
  then have "0 \<le> - x" by simp
  from round64_nonneg [OF this] show ?thesis using False by (simp add: round64_minus)
qed

lemma round64_error: "\<bar>round64 x - x\<bar> \<le> ulp64 x / 2"
proof (cases "x = 0")
  case True
  then show ?thesis using ulp64_pos [of 0] by (simp add: round64_def)
next
  case False
  have "\<bar>of_int (rne (x / ulp64 x)) * ulp64 x - x\<bar>
          = \<bar>of_int (rne (x / ulp64 x)) - x / ulp64 x\<bar> * ulp64 x"
    by (rule scale_abs [OF ulp64_pos])
  also have "\<dots> \<le> 1 / 2 * ulp64 x"
    using rne_error [of "x / ulp64 x"] ulp64_pos [of x] by (intro mult_right_mono) simp_all
  finally show ?thesis using False by (simp add: round64_def)
qed

lemma ulp64_le: "x \<noteq> 0 \<Longrightarrow> ulp64 x \<le> \<bar>x\<bar> / 2 ^ 52 + 1 / 2 ^ 1074"
proof (cases "- 1022 \<le> \<lfloor>log 2 \<bar>x\<bar>\<rfloor>")
  assume nz: "x \<noteq> 0"
  case True
  then have e: "max \<lfloor>log 2 \<bar>x\<bar>\<rfloor> (- 1022) = \<lfloor>log 2 \<bar>x\<bar>\<rfloor>" by linarith
  have "ulp64 x = 2 powr (of_int \<lfloor>log 2 \<bar>x\<bar>\<rfloor> - 52)"
    by (simp only: ulp64_def e)
  also have "\<dots> = 2 powr (of_int \<lfloor>log 2 \<bar>x\<bar>\<rfloor>) / 2 ^ 52"
    by (simp add: powr_diff)
  also have "\<dots> \<le> 2 powr (log 2 \<bar>x\<bar>) / 2 ^ 52"
    by (intro divide_right_mono powr_mono) simp_all
  also have "\<dots> = \<bar>x\<bar> / 2 ^ 52" using nz by simp
  finally show ?thesis by simp
next
  case False
  then have e: "max \<lfloor>log 2 \<bar>x\<bar>\<rfloor> (- 1022) = - 1022" by linarith
  have "ulp64 x = 2 powr (of_int (- 1022) - 52)" by (simp only: ulp64_def e)
  also have "\<dots> = 2 powr (- 1074)" by simp
  finally have "ulp64 x = 1 / 2 ^ 1074" by (simp add: powr_minus_divide)
  then show ?thesis by simp
qed

lemma round64_rel_error: "\<bar>round64 x - x\<bar> \<le> \<bar>x\<bar> / 2 ^ 53 + 1 / 2 ^ 1075"
proof (cases "x = 0")
  case True
  then show ?thesis by (simp add: round64_0)
next
  case False
  have "ulp64 x / 2 \<le> (\<bar>x\<bar> / 2 ^ 52 + 1 / 2 ^ 1074) / 2"
    using ulp64_le [OF False] by simp
  also have "\<dots> = \<bar>x\<bar> / 2 ^ 53 + 1 / 2 ^ 1075" by (simp add: add_divide_distrib)
  finally show ?thesis using round64_error [of x] by linarith
qed


lemma ulp64_eq: "ulp64 x = 2 powr (of_int (max \<lfloor>log 2 \<bar>x\<bar>\<rfloor> (- 1022)) - 52)"
  by (simp only: ulp64_def)

lemma powr_53: "(2::real) powr (of_int e + 1) = of_int (2 ^ 53) * 2 powr (of_int e - 52)"
proof -
  have "(2::real) powr (of_int e + 1) = 2 powr (53 + (of_int e - 52))"
    by (simp add: algebra_simps)
  also have "\<dots> = 2 powr 53 * 2 powr (of_int e - 52)" by (simp only: powr_add)
  finally show ?thesis by simp
qed

lemma powr_52: "(2::real) powr (of_int e) = of_int (2 ^ 52) * 2 powr (of_int e - 52)"
proof -
  have "(2::real) powr (of_int e) = 2 powr (52 + (of_int e - 52))" by simp
  also have "\<dots> = 2 powr 52 * 2 powr (of_int e - 52)" by (simp only: powr_add)
  finally show ?thesis by simp
qed

lemma binade_upper:
  assumes "0 < x"
  shows "x < 2 powr (of_int (max \<lfloor>log 2 x\<rfloor> (- 1022)) + 1)"
proof -
  have "log 2 x < of_int \<lfloor>log 2 x\<rfloor> + 1" by linarith
  also have "\<dots> \<le> of_int (max \<lfloor>log 2 x\<rfloor> (- 1022)) + 1" by simp
  finally have "log 2 x < of_int (max \<lfloor>log 2 x\<rfloor> (- 1022)) + 1" .
  then show ?thesis using assms by (simp add: log_less_iff)
qed

lemma binade_lower:
  assumes "0 < x" "- 1022 \<le> \<lfloor>log 2 x\<rfloor>"
  shows "2 powr (of_int (max \<lfloor>log 2 x\<rfloor> (- 1022))) \<le> x"
proof -
  have e: "max \<lfloor>log 2 x\<rfloor> (- 1022) = \<lfloor>log 2 x\<rfloor>" using assms(2) by linarith
  have "2 powr (of_int \<lfloor>log 2 x\<rfloor>) \<le> 2 powr (log 2 x)"
    by (intro powr_mono) simp_all
  also have "\<dots> = x" using assms(1) by simp
  finally show ?thesis by (simp only: e)
qed

lemma round64_binade_upper:
  assumes "0 < x"
  shows "round64 x \<le> 2 powr (of_int (max \<lfloor>log 2 x\<rfloor> (- 1022)) + 1)"
proof -
  define e where "e = max \<lfloor>log 2 x\<rfloor> (- 1022)"
  define u where "u = (2::real) powr (of_int e - 52)"
  have u: "0 < u" by (simp add: u_def)
  have ux: "ulp64 x = u" using assms by (simp add: ulp64_eq u_def e_def)
  have "x < of_int (2 ^ 53) * u"
    using binade_upper [OF assms] powr_53 [of e] by (simp only: e_def [symmetric] u_def)
  then have "x / u \<le> of_int (2 ^ 53)" using u by (simp add: field_simps)
  then have "rne (x / u) \<le> 2 ^ 53" using rne_mono rne_of_int by metis
  then have "of_int (rne (x / u)) * u \<le> of_int (2 ^ 53) * u"
    using u by (intro mult_right_mono) simp_all
  also have "\<dots> = 2 powr (of_int e + 1)" by (simp only: powr_53 u_def)
  finally show ?thesis using assms by (simp add: round64_def ux e_def)
qed

lemma round64_binade_lower:
  assumes "0 < x" "- 1022 \<le> \<lfloor>log 2 x\<rfloor>"
  shows "2 powr (of_int (max \<lfloor>log 2 x\<rfloor> (- 1022))) \<le> round64 x"
proof -
  define e where "e = max \<lfloor>log 2 x\<rfloor> (- 1022)"
  define u where "u = (2::real) powr (of_int e - 52)"
  have u: "0 < u" by (simp add: u_def)
  have ux: "ulp64 x = u" using assms by (simp add: ulp64_eq u_def e_def)
  have "of_int (2 ^ 52) * u \<le> x"
    using binade_lower [OF assms] powr_52 [of e] by (simp only: e_def [symmetric] u_def)
  then have "of_int (2 ^ 52) \<le> x / u" using u by (simp add: field_simps)
  then have "2 ^ 52 \<le> rne (x / u)" using rne_mono rne_of_int by metis
  then have "of_int (2 ^ 52) * u \<le> of_int (rne (x / u)) * u"
    using u by (intro mult_right_mono) simp_all
  moreover have "of_int (2 ^ 52) * u = 2 powr (of_int e)" by (simp only: powr_52 u_def)
  ultimately show ?thesis using assms by (simp add: round64_def ux e_def)
qed

lemma round64_mono_pos:
  assumes "0 < x" "x \<le> y"
  shows "round64 x \<le> round64 y"
proof -
  define ex where "ex = max \<lfloor>log 2 x\<rfloor> (- 1022)"
  define ey where "ey = max \<lfloor>log 2 y\<rfloor> (- 1022)"
  have y: "0 < y" using assms by simp
  have "log 2 x \<le> log 2 y" using assms by simp
  then have "\<lfloor>log 2 x\<rfloor> \<le> \<lfloor>log 2 y\<rfloor>" by (rule floor_mono)
  then have le: "ex \<le> ey" unfolding ex_def ey_def by linarith
  show ?thesis
  proof (cases "ex = ey")
    case True
    then have u: "ulp64 y = ulp64 x" using assms y by (simp add: ulp64_eq ex_def ey_def)
    have "x / ulp64 x \<le> y / ulp64 x"
      using assms(2) ulp64_pos [of x] by (simp add: divide_right_mono)
    then have "rne (x / ulp64 x) \<le> rne (y / ulp64 x)" by (rule rne_mono)
    then have "of_int (rne (x / ulp64 x)) * ulp64 x \<le> of_int (rne (y / ulp64 x)) * ulp64 x"
      using ulp64_pos [of x] by (intro mult_right_mono) simp_all
    then show ?thesis using assms y by (simp add: round64_def u)
  next
    case False
    then have lt: "ex + 1 \<le> ey" using le by simp
    then have "- 1022 < ey" unfolding ex_def by linarith
    then have fy: "- 1022 \<le> \<lfloor>log 2 y\<rfloor>" unfolding ey_def by linarith
    have "round64 x \<le> 2 powr (of_int ex + 1)"
      unfolding ex_def by (rule round64_binade_upper [OF assms(1)])
    also have "\<dots> \<le> 2 powr (of_int ey)"
      using lt by (intro powr_mono) simp_all
    also have "\<dots> \<le> round64 y"
      unfolding ey_def by (rule round64_binade_lower [OF y fy])
    finally show ?thesis .
  qed
qed

lemma round64_mono: "x \<le> y \<Longrightarrow> round64 x \<le> round64 y"
proof -
  assume xy: "x \<le> y"
  consider "0 < x" | "x \<le> 0" "0 \<le> y" | "y < 0" by linarith
  then show ?thesis
  proof cases
    case 1
    then show ?thesis using xy by (rule round64_mono_pos)
  next
    case 2
    have "round64 x \<le> 0" using round64_nonneg [of "- x"] 2(1) by (simp add: round64_minus)
    moreover have "0 \<le> round64 y" using round64_nonneg [OF 2(2)] by simp
    ultimately show ?thesis by simp
  next
    case 3
    then have "0 < - y" "- y \<le> - x" using xy by simp_all
    then have "round64 (- y) \<le> round64 (- x)" by (rule round64_mono_pos)
    then show ?thesis by (simp add: round64_minus)
  qed
qed


lemma ulp64_grid:
  assumes "x \<noteq> 0" "- 1022 \<le> e" "\<bar>x\<bar> < 2 powr (of_int e + 1)"
    "e = - 1022 \<or> 2 powr (of_int e) \<le> \<bar>x\<bar>"
  shows "ulp64 x = 2 powr (of_int e - 52)"
proof -
  have pos: "0 < \<bar>x\<bar>" using assms(1) by simp
  have "log 2 \<bar>x\<bar> < of_int e + 1" using assms(3) pos by (simp add: log_less_iff)
  then have up: "\<lfloor>log 2 \<bar>x\<bar>\<rfloor> \<le> e" by (simp add: floor_le_iff)
  have "max \<lfloor>log 2 \<bar>x\<bar>\<rfloor> (- 1022) = e"
    using assms(4)
  proof
    assume "e = - 1022" then show ?thesis using up by linarith
  next
    assume "2 powr (of_int e) \<le> \<bar>x\<bar>"
    then have "of_int e \<le> log 2 \<bar>x\<bar>" using pos by (simp add: le_log_iff)
    then have "e \<le> \<lfloor>log 2 \<bar>x\<bar>\<rfloor>" by (simp add: le_floor_iff)
    then show ?thesis using up assms(2) by linarith
  qed
  then show ?thesis by (simp only: ulp64_eq)
qed

lemma round64_grid:
  assumes "x \<noteq> 0" "- 1022 \<le> e" "\<bar>x\<bar> < 2 powr (of_int e + 1)"
    "e = - 1022 \<or> 2 powr (of_int e) \<le> \<bar>x\<bar>"
  shows "round64 x = of_int (rne (x / 2 powr (of_int e - 52))) * 2 powr (of_int e - 52)"
  using assms(1) by (simp only: round64_def ulp64_grid [OF assms] if_False)

lemma round64_grid_point:
  assumes "- 1022 \<le> e" "\<bar>k\<bar> < 2 ^ 53" "e = - 1022 \<or> 2 ^ 52 \<le> \<bar>k\<bar>"
  shows "round64 (of_int k * 2 powr (of_int e - 52)) = of_int k * 2 powr (of_int e - 52)"
proof (cases "k = 0")
  case True
  then show ?thesis by (simp add: round64_0)
next
  case False
  define u where "u = (2::real) powr (of_int e - 52)"
  have u: "0 < u" by (simp add: u_def)
  have nz: "of_int k * u \<noteq> 0" using False u by simp
  have ab: "\<bar>of_int k * u\<bar> = of_int \<bar>k\<bar> * u" using u by (simp add: abs_mult)
  have "of_int \<bar>k\<bar> < (of_int (2 ^ 53) :: real)" using assms(2) by (simp only: of_int_less_iff)
  then have "of_int \<bar>k\<bar> * u < of_int (2 ^ 53) * u" using u by (simp only: mult_less_cancel_right_pos)
  then have "\<bar>of_int k * u\<bar> < of_int (2 ^ 53) * u" by (simp only: ab)
  then have up: "\<bar>of_int k * u\<bar> < 2 powr (of_int e + 1)"
    by (simp only: powr_53 [of e] u_def)
  have lo: "e = - 1022 \<or> 2 powr (of_int e) \<le> \<bar>of_int k * u\<bar>"
    using assms(3)
  proof
    assume "e = - 1022" then show ?thesis by simp
  next
    assume "2 ^ 52 \<le> \<bar>k\<bar>"
    then have "(of_int (2 ^ 52) :: real) \<le> of_int \<bar>k\<bar>" by (simp only: of_int_le_iff)
    then have "of_int (2 ^ 52) * u \<le> of_int \<bar>k\<bar> * u" using u by (simp only: mult_le_cancel_right_pos)
    then have "of_int (2 ^ 52) * u \<le> \<bar>of_int k * u\<bar>" by (simp only: ab)
    then have "2 powr (of_int e) \<le> \<bar>of_int k * u\<bar>" by (simp only: powr_52 [of e] u_def)
    then show ?thesis by (rule disjI2)
  qed
  have "round64 (of_int k * u) = of_int (rne (of_int k * u / u)) * u"
    unfolding u_def by (rule round64_grid [OF nz [unfolded u_def] assms(1) up [unfolded u_def] lo [unfolded u_def]])
  also have "of_int k * u / u = of_int k" using u by simp
  finally show ?thesis by (simp only: rne_of_int u_def)
qed


lemma round64_decomp:
  assumes "0 < z"
  shows "\<exists>k e. round64 z = of_int k * 2 powr (of_int e - 52) \<and> - 1022 \<le> e \<and>
           0 \<le> k \<and> k \<le> 2 ^ 53 \<and> (e = - 1022 \<or> 2 ^ 52 \<le> k)"
proof -
  define e where "e = max \<lfloor>log 2 z\<rfloor> (- 1022)"
  define u where "u = (2::real) powr (of_int e - 52)"
  define k where "k = rne (z / u)"
  have u: "0 < u" by (simp add: u_def)
  have ux: "ulp64 z = u" using assms by (simp add: ulp64_eq u_def e_def)
  have r: "round64 z = of_int k * u" using assms by (simp add: round64_def ux k_def)
  have e: "- 1022 \<le> e" by (simp add: e_def)
  have "0 \<le> z / u" using assms u by simp
  then have k0: "0 \<le> k" unfolding k_def using rne_nonneg by blast
  have "z < of_int (2 ^ 53) * u"
    using binade_upper [OF assms] powr_53 [of e] by (simp only: e_def [symmetric] u_def)
  then have "z / u \<le> of_int (2 ^ 53)" using u by (simp add: field_simps)
  then have k1: "k \<le> 2 ^ 53" unfolding k_def using rne_mono rne_of_int by metis
  have lo: "e = - 1022 \<or> 2 ^ 52 \<le> k"
  proof (cases "- 1022 \<le> \<lfloor>log 2 z\<rfloor>")
    case True
    have "of_int (2 ^ 52) * u \<le> z"
      using binade_lower [OF assms True] powr_52 [of e] by (simp only: e_def [symmetric] u_def)
    then have "of_int (2 ^ 52) \<le> z / u" using u by (simp add: field_simps)
    then have "2 ^ 52 \<le> k" unfolding k_def using rne_mono rne_of_int by metis
    then show ?thesis by (rule disjI2)
  next
    case False
    then have "e = - 1022" unfolding e_def by linarith
    then show ?thesis by (rule disjI1)
  qed
  from r e k0 k1 lo show ?thesis unfolding u_def by blast
qed

lemma round64_idem_pos:
  assumes "0 < z"
  shows "round64 (round64 z) = round64 z"
proof -
  from round64_decomp [OF assms]
  obtain k e where r: "round64 z = of_int k * 2 powr (of_int e - 52)" and e: "- 1022 \<le> e"
    and k0: "0 \<le> k" and k1: "k \<le> 2 ^ 53" and lo: "e = - 1022 \<or> 2 ^ 52 \<le> k"
    by blast
  show ?thesis
  proof (cases "k = 2 ^ 53")
    case True
    have "of_int k * (2::real) powr (of_int e - 52) = of_int (2 ^ 53) * 2 powr (of_int e - 52)"
      by (simp only: True)
    also have "\<dots> = 2 powr (of_int (e + 1))" using powr_53 [of e] by simp
    also have "\<dots> = of_int (2 ^ 52) * 2 powr (of_int (e + 1) - 52)" by (rule powr_52)
    finally have r': "round64 z = of_int (2 ^ 52) * 2 powr (of_int (e + 1) - 52)"
      using r by simp
    have "round64 (of_int (2 ^ 52) * 2 powr (of_int (e + 1) - 52))
            = of_int (2 ^ 52) * 2 powr (of_int (e + 1) - 52)"
      using e by (intro round64_grid_point) simp_all
    then show ?thesis by (simp only: r')
  next
    case False
    then have "\<bar>k\<bar> < 2 ^ 53" using k0 k1 by simp
    moreover have "e = - 1022 \<or> 2 ^ 52 \<le> \<bar>k\<bar>" using lo k0 by auto
    ultimately have "round64 (of_int k * 2 powr (of_int e - 52)) = of_int k * 2 powr (of_int e - 52)"
      using e by (intro round64_grid_point)
    then show ?thesis by (simp only: r)
  qed
qed

lemma round64_idem: "round64 (round64 z) = round64 z"
proof -
  consider "0 < z" | "z = 0" | "0 < - z" by linarith
  then show ?thesis
  proof cases
    case 1 then show ?thesis by (rule round64_idem_pos)
  next
    case 2 then show ?thesis by (simp add: round64_0)
  next
    case 3
    from round64_idem_pos [OF this] show ?thesis by (simp add: round64_minus)
  qed
qed


lemma round64_nonpos: "x \<le> 0 \<Longrightarrow> round64 x \<le> 0"
  using round64_mono [of x 0] by (simp add: round64_0)

lemma lerp64_between:
  assumes X: "round64 x = x" and T: "round64 t = t"
    and a: "0 \<le> a" "a \<le> 1 / 4"
  shows "min x t \<le> round64 (x + round64 (round64 (t - x) * a)) \<and>
         round64 (x + round64 (round64 (t - x) * a)) \<le> max x t \<and>
         \<bar>round64 (round64 (t - x) * a)\<bar> \<le> \<bar>t - x\<bar>"
proof -
  define d where "d = round64 (t - x)"
  define m where "m = round64 (d * a)"
  have d2: "\<bar>d\<bar> \<le> 2 * \<bar>t - x\<bar>" unfolding d_def by (rule round64_abs_le)
  have "\<bar>m\<bar> \<le> 2 * \<bar>d * a\<bar>" unfolding m_def by (rule round64_abs_le)
  also have "\<dots> = 2 * a * \<bar>d\<bar>" using a by (simp add: abs_mult)
  also have "\<dots> \<le> 2 * (1 / 4) * \<bar>d\<bar>" using a by (intro mult_right_mono mult_left_mono) simp_all
  also have "\<dots> \<le> \<bar>t - x\<bar>" using d2 by simp
  finally have m: "\<bar>m\<bar> \<le> \<bar>t - x\<bar>" .
  have between: "min x t \<le> x + m \<and> x + m \<le> max x t"
  proof (cases "x \<le> t")
    case True
    then have "0 \<le> d" unfolding d_def using round64_nonneg [of "t - x"] by simp
    then have "0 \<le> d * a" using a by simp
    then have "0 \<le> m" unfolding m_def using round64_nonneg by blast
    then show ?thesis using m True by linarith
  next
    case False
    then have "t - x \<le> 0" by simp
    then have "d \<le> 0" unfolding d_def by (rule round64_nonpos)
    then have "d * a \<le> 0" using a by (simp add: mult_nonpos_nonneg)
    then have "m \<le> 0" unfolding m_def by (rule round64_nonpos)
    then show ?thesis using m False by linarith
  qed
  have lo: "min x t \<le> round64 (x + m)"
  proof -
    have "round64 (min x t) \<le> round64 (x + m)" using between by (intro round64_mono) simp
    moreover have "round64 (min x t) = min x t" using X T by (simp add: min_def)
    ultimately show ?thesis by simp
  qed
  have hi: "round64 (x + m) \<le> max x t"
  proof -
    have "round64 (x + m) \<le> round64 (max x t)" using between by (intro round64_mono) simp
    moreover have "round64 (max x t) = max x t" using X T by (simp add: max_def)
    ultimately show ?thesis by simp
  qed
  from lo hi m show ?thesis unfolding m_def d_def by simp
qed

lemma lerp64_Some:
  assumes X: "round64 x = x" and T: "round64 t = t"
    and b: "\<bar>x\<bar> \<le> 2 ^ 1020" "\<bar>t\<bar> \<le> 2 ^ 1020"
    and a: "0 \<le> a" "a \<le> 1 / 4"
  shows "lerp64 x t a = Some (round64 (x + round64 (round64 (t - x) * a)))"
proof -
  define d where "d = round64 (t - x)"
  define m where "m = round64 (d * a)"
  define x' where "x' = round64 (x + m)"
  from lerp64_between [OF X T a]
  have bt: "min x t \<le> x'" "x' \<le> max x t" and mm: "\<bar>m\<bar> \<le> \<bar>t - x\<bar>"
    unfolding x'_def m_def d_def by simp_all
  have tx: "\<bar>t - x\<bar> \<le> 2 ^ 1021" using b by (simp add: abs_le_iff)
  have "\<bar>d\<bar> \<le> 2 * \<bar>t - x\<bar>" unfolding d_def by (rule round64_abs_le)
  then have d: "\<bar>d\<bar> < 2 ^ 1024" using tx by simp
  have m: "\<bar>m\<bar> < 2 ^ 1024" using mm tx by simp
  have "\<bar>x'\<bar> \<le> 2 ^ 1020" using bt b by (simp add: abs_le_iff min_def max_def split: if_splits)
  then have x': "\<bar>x'\<bar> < 2 ^ 1024" by simp
  show ?thesis
    using d m x' unfolding x'_def m_def d_def
    by (simp add: lerp64_def binary64_def)
qed


lemma lerp64_error:
  assumes X: "round64 x = x" and T: "round64 t = t"
  shows "\<bar>round64 (x + round64 (round64 (t - x) * (3602879701896397 / 2 ^ 56)))
           - (x + (t - x) * (1 / 20))\<bar>
         \<le> max \<bar>x\<bar> \<bar>t\<bar> / 2 ^ 52 + 1 / 2 ^ 1073"
proof -
  define c where "c = (3602879701896397 / 2 ^ 56 :: real)"
  define y where "y = t - x"
  define d where "d = round64 y"
  define m where "m = round64 (d * c)"
  define s where "s = x + m"
  define x' where "x' = round64 s"
  define M where "M = max \<bar>x\<bar> \<bar>t\<bar>"
  define Y where "Y = \<bar>y\<bar>"
  define h where "h = (1 / 2 ^ 1075 :: real)"
  have c0: "0 \<le> c" and c1: "c \<le> 1 / 16" and c4: "c \<le> 1 / 4" and cd: "c - 1 / 20 = 1 / (5 * 2 ^ 56)"
    by (simp_all add: c_def)
  have h0: "0 \<le> h" by (simp add: h_def)
  have Y0: "0 \<le> Y" by (simp add: Y_def)
  have YM: "Y \<le> 2 * M" unfolding Y_def y_def M_def by linarith
  from lerp64_between [OF X T c0 c4]
  have "min x t \<le> x'" "x' \<le> max x t"
    unfolding x'_def s_def m_def d_def y_def c_def by simp_all
  have sb: "min x t \<le> s \<and> s \<le> max x t"
  proof -
    have mm: "\<bar>m\<bar> \<le> \<bar>t - x\<bar>"
      using lerp64_between [OF X T c0 c4] unfolding m_def d_def y_def by simp
    show ?thesis
    proof (cases "x \<le> t")
      case True
      then have "0 \<le> d" unfolding d_def y_def using round64_nonneg [of "t - x"] by simp
      then have "0 \<le> d * c" using c0 by simp
      then have "0 \<le> m" unfolding m_def using round64_nonneg by blast
      then show ?thesis using mm True unfolding s_def by linarith
    next
      case False
      then have "t - x \<le> 0" by simp
      then have "d \<le> 0" unfolding d_def y_def by (rule round64_nonpos)
      then have "d * c \<le> 0" using c0 by (simp add: mult_nonpos_nonneg)
      then have "m \<le> 0" unfolding m_def by (rule round64_nonpos)
      then show ?thesis using mm False unfolding s_def by linarith
    qed
  qed
  then have sM: "\<bar>s\<bar> \<le> M" unfolding M_def by linarith
  have d2: "\<bar>d\<bar> \<le> 2 * Y" unfolding d_def Y_def by (rule round64_abs_le)
  have "\<bar>x' - s\<bar> \<le> \<bar>s\<bar> / 2 ^ 53 + h" unfolding x'_def h_def by (rule round64_rel_error)
  then have F1: "\<bar>x' - s\<bar> \<le> M / 2 ^ 53 + h" using sM by simp
  have "\<bar>d * c\<bar> = c * \<bar>d\<bar>" using c0 by (simp add: abs_mult)
  also have "\<dots> \<le> (1 / 16) * \<bar>d\<bar>" using c1 by (intro mult_right_mono) simp_all
  also have "\<dots> \<le> (1 / 16) * (2 * Y)" using d2 by simp
  finally have dc: "\<bar>d * c\<bar> \<le> Y / 8" by simp
  have "\<bar>m - d * c\<bar> \<le> \<bar>d * c\<bar> / 2 ^ 53 + h" unfolding m_def h_def by (rule round64_rel_error)
  then have F2: "\<bar>m - d * c\<bar> \<le> (Y / 8) / 2 ^ 53 + h" using dc by simp
  have e3: "\<bar>d - y\<bar> \<le> Y / 2 ^ 53 + h" unfolding d_def Y_def h_def by (rule round64_rel_error)
  have "\<bar>c * (d - y)\<bar> = c * \<bar>d - y\<bar>" using c0 by (simp add: abs_mult)
  also have "\<dots> \<le> (1 / 16) * \<bar>d - y\<bar>" using c1 by (intro mult_right_mono) simp_all
  also have "\<dots> \<le> (1 / 16) * (Y / 2 ^ 53 + h)" using e3 by simp
  finally have F3: "\<bar>c * (d - y)\<bar> \<le> (1 / 16) * (Y / 2 ^ 53 + h)" .
  have F4: "\<bar>(c - 1 / 20) * y\<bar> = Y / (5 * 2 ^ 56)" unfolding cd Y_def by (simp add: abs_mult)
  have split: "x' - (x + y * (1 / 20)) = (x' - s) + (m - d * c) + c * (d - y) + (c - 1 / 20) * y"
    unfolding s_def by algebra
  have "\<bar>x' - (x + y * (1 / 20))\<bar>
          \<le> \<bar>x' - s\<bar> + \<bar>m - d * c\<bar> + \<bar>c * (d - y)\<bar> + \<bar>(c - 1 / 20) * y\<bar>"
    unfolding split by linarith
  also have "\<dots> \<le> (M / 2 ^ 53 + h) + ((Y / 8) / 2 ^ 53 + h) + (1 / 16) * (Y / 2 ^ 53 + h)
                    + Y / (5 * 2 ^ 56)"
    using F1 F2 F3 F4 by linarith
  also have "\<dots> \<le> M / 2 ^ 52 + 4 * h"
  proof -
    have "(Y / 8) / 2 ^ 53 + (1 / 16) * (Y / 2 ^ 53) + Y / (5 * 2 ^ 56) \<le> Y / (2 * 2 ^ 53)"
      using Y0 by (simp add: field_simps)
    also have "\<dots> \<le> (2 * M) / (2 * 2 ^ 53)" using YM by (intro divide_right_mono) simp_all
    also have "\<dots> = M / 2 ^ 53" by simp
    finally have "(Y / 8) / 2 ^ 53 + (1 / 16) * (Y / 2 ^ 53) + Y / (5 * 2 ^ 56) \<le> M / 2 ^ 53" .
    moreover have "M / 2 ^ 53 + M / 2 ^ 53 = M / 2 ^ 52" by simp
    ultimately show ?thesis using h0 by (simp add: algebra_simps)
  qed
  also have "4 * h = 1 / 2 ^ 1073" by (simp add: h_def)
  finally show ?thesis
    unfolding x'_def s_def m_def d_def y_def c_def M_def by simp
qed


lemma rne_down: "of_int f \<le> w \<Longrightarrow> w - of_int f < 1 / 2 \<Longrightarrow> rne w = f"
proof -
  assume a: "of_int f \<le> w" "w - of_int f < 1 / 2"
  then have "\<lfloor>w\<rfloor> = f" by (intro floor_unique) simp_all
  then show ?thesis using a by (simp add: rne_def Let_def)
qed

lemma rne_tie: "w = of_int f + 1 / 2 \<Longrightarrow> rne w = (if even f then f else f + 1)"
proof -
  assume a: "w = of_int f + 1 / 2"
  then have "\<lfloor>w\<rfloor> = f" by (intro floor_unique) simp_all
  then show ?thesis using a by (simp add: rne_def Let_def)
qed

lemma rne_up: "1 / 2 < w - of_int f \<Longrightarrow> w < of_int f + 1 \<Longrightarrow> rne w = f + 1"
proof -
  assume a: "1 / 2 < w - of_int f" "w < of_int f + 1"
  then have "\<lfloor>w\<rfloor> = f" by (intro floor_unique) simp_all
  then show ?thesis using a by (simp add: rne_def Let_def)
qed

lemma round64_eval:
  assumes "x \<noteq> 0" "- 1022 \<le> e" "\<bar>x\<bar> < 2 powr (of_int e + 1)" "2 powr (of_int e) \<le> \<bar>x\<bar>"
    "rne (x / 2 powr (of_int e - 52)) = k"
  shows "round64 x = of_int k * 2 powr (of_int e - 52)"
  using round64_grid [OF assms(1-3) disjI2 [OF assms(4)]] assms(5) by simp

lemma round64_exact:
  assumes "x = of_int k * 2 powr (of_int e - 52)" "- 1022 \<le> e" "\<bar>k\<bar> < 2 ^ 53" "2 ^ 52 \<le> \<bar>k\<bar>"
  shows "round64 x = x"
  unfolding assms(1) by (rule round64_grid_point [OF assms(2,3) disjI2 [OF assms(4)]])

lemma alpha64: "round64 (5 / 100) = 3602879701896397 / 2 ^ 56"
proof -
  have "rne ((5 / 100) / 2 powr (of_int (- 5) - 52)) = 7205759403792794"
    by (rule rne_up [where f = 7205759403792793, simplified]) (simp_all add: powr_minus_divide)
  from round64_eval [OF _ _ _ _ this] show ?thesis by (simp add: powr_minus_divide)
qed

lemma doubles:
  "round64 12 = 12" "round64 (- 15) = - 15" "round64 (- 1 / 2) = - 1 / 2" "round64 (- 8) = - 8"
  "round64 2 = 2" "round64 35 = 35" "round64 (3 / 2) = 3 / 2"
proof -
  show "round64 12 = 12"
    by (rule round64_exact [where k = "12 * 2 ^ 49" and e = 3]) (simp_all add: powr_minus_divide)
  show "round64 (- 15) = - 15"
    by (rule round64_exact [where k = "- 15 * 2 ^ 49" and e = 3]) (simp_all add: powr_minus_divide)
  show "round64 (- 1 / 2) = - 1 / 2"
    by (rule round64_exact [where k = "- (2 ^ 52)" and e = "- 1"]) (simp_all add: powr_minus_divide)
  show "round64 (- 8) = - 8"
    by (rule round64_exact [where k = "- (2 ^ 52)" and e = 3]) (simp_all add: powr_minus_divide)
  show "round64 2 = 2"
    by (rule round64_exact [where k = "2 ^ 52" and e = 1]) (simp_all add: powr_minus_divide)
  show "round64 35 = 35"
    by (rule round64_exact [where k = "35 * 2 ^ 47" and e = 5]) (simp_all add: powr_minus_divide)
  show "round64 (3 / 2) = 3 / 2"
    by (rule round64_exact [where k = "3 * 2 ^ 51" and e = 0]) (simp_all add: powr_minus_divide)
qed


lemma binary64_I: "round64 x = r \<Longrightarrow> \<bar>r\<bar> < 2 ^ 1024 \<Longrightarrow> binary64 x = Some r"
  by (simp add: binary64_def)

lemma stall_x:
  "lerp64 (12 - 10 / 2 ^ 49) 12 (3602879701896397 / 2 ^ 56) = Some (12 - 10 / 2 ^ 49)"
proof -
  have eq: "12 - (12 - 10 / 2 ^ 49) = (10 / 2 ^ 49 :: real)" by simp
  have "round64 (10 / 2 ^ 49) = 10 / 2 ^ 49"
    by (rule round64_exact [where k = "5 * 2 ^ 50" and e = "- 46"])
       (simp_all add: powr_minus_divide)
  then have "round64 (12 - (12 - 10 / 2 ^ 49)) = 10 / 2 ^ 49" by (simp only: eq)
  then have d: "binary64 (12 - (12 - 10 / 2 ^ 49)) = Some (10 / 2 ^ 49)"
    by (rule binary64_I) simp
  have "rne ((10 / 2 ^ 49 * (3602879701896397 / 2 ^ 56)) / 2 powr (of_int (- 50) - 52)) = 2 ^ 52"
    by (rule rne_down) (simp_all add: powr_minus_divide)
  from round64_eval [OF _ _ _ _ this]
  have "round64 (10 / 2 ^ 49 * (3602879701896397 / 2 ^ 56)) = 1 / 2 ^ 50"
    by (simp add: powr_minus_divide)
  then have m: "binary64 (10 / 2 ^ 49 * (3602879701896397 / 2 ^ 56)) = Some (1 / 2 ^ 50)"
    by (rule binary64_I) simp
  have "rne ((12 - 10 / 2 ^ 49 + 1 / 2 ^ 50) / 2 powr (of_int 3 - 52)) = 12 * 2 ^ 49 - 10"
    using rne_tie [of "(12 - 10 / 2 ^ 49 + 1 / 2 ^ 50) / 2 powr (of_int 3 - 52)" "12 * 2 ^ 49 - 10"]
    by (simp add: powr_minus_divide)
  from round64_eval [OF _ _ _ _ this]
  have "round64 (12 - 10 / 2 ^ 49 + 1 / 2 ^ 50) = 12 - 10 / 2 ^ 49"
    by (simp add: powr_minus_divide)
  then have x': "binary64 (12 - 10 / 2 ^ 49 + 1 / 2 ^ 50) = Some (12 - 10 / 2 ^ 49)"
    by (rule binary64_I) simp
  show ?thesis by (simp only: lerp64_def d m x' option.case)
qed

lemma component64_double:
  assumes "double_upto 1020 x" "double_upto 1020 t"
  shows "double_upto 1020 (component64 x t n) \<and>
         min x t \<le> component64 x t n \<and> component64 x t n \<le> max x t"
proof (induction n)
  case 0
  show ?case using assms by simp
next
  case (Suc n)
  define c where "c = (3602879701896397 / 2 ^ 56 :: real)"
  have c: "0 \<le> c" "c \<le> 1 / 4" by (simp_all add: c_def)
  have X: "round64 (component64 x t n) = component64 x t n"
    using Suc by (simp add: double_upto_def)
  have T: "round64 t = t" using assms by (simp add: double_upto_def)
  from lerp64_between [OF X T c]
  have b: "min (component64 x t n) t \<le> component64 x t (Suc n)"
    "component64 x t (Suc n) \<le> max (component64 x t n) t"
    by (simp_all add: c_def)
  have r: "min x t \<le> component64 x t (Suc n)" "component64 x t (Suc n) \<le> max x t"
    using b Suc by linarith+
  have "\<bar>component64 x t (Suc n)\<bar> \<le> 2 ^ 1020"
    using r assms by (simp add: double_upto_def abs_le_iff min_def max_def split: if_splits)
  moreover have "round64 (component64 x t (Suc n)) = component64 x t (Suc n)"
    by (simp add: round64_idem)
  ultimately show ?case using r by (simp only: double_upto_def simp_thms)
qed

lemma component64_lerp64:
  assumes "double_upto 1020 x" "double_upto 1020 t"
  shows "lerp64 (component64 x t n) t (3602879701896397 / 2 ^ 56) = Some (component64 x t (Suc n))"
proof -
  have d: "double_upto 1020 (component64 x t n)" using component64_double [OF assms] by blast
  have "lerp64 (component64 x t n) t (3602879701896397 / 2 ^ 56)
          = Some (round64 (component64 x t n
              + round64 (round64 (t - component64 x t n) * (3602879701896397 / 2 ^ 56))))"
    using d assms(2) by (intro lerp64_Some) (simp_all add: double_upto_def)
  then show ?thesis by simp
qed

lemma component64_settles:
  assumes "double_upto 1020 x" "double_upto 1020 t"
  shows "settles x t n (component64 x t n) (component64 x t (Suc n))"
proof -
  define c where "c = (3602879701896397 / 2 ^ 56 :: real)"
  define M where "M = max \<bar>x\<bar> \<bar>t\<bar>"
  define E where "E = M / 2 ^ 52 + 1 / 2 ^ 1073"
  define s where "s = component64 x t"
  have c: "0 \<le> c" "c \<le> 1 / 4" by (simp_all add: c_def)
  have T: "round64 t = t" using assms by (simp add: double_upto_def)
  have inv: "round64 (s k) = s k \<and> min x t \<le> s k \<and> s k \<le> max x t" for k
    using component64_double [OF assms, of k] by (simp add: double_upto_def s_def)
  have sM: "max \<bar>s k\<bar> \<bar>t\<bar> \<le> M" for k
    using inv [of k] unfolding M_def by linarith
  have between: "min (s k) t \<le> s (Suc k) \<and> s (Suc k) \<le> max (s k) t" for k
    using lerp64_between [OF conjunct1 [OF inv [of k]] T c] by (simp add: c_def s_def)
  have err: "\<bar>s (Suc k) - (s k + (t - s k) * (1 / 20))\<bar> \<le> max \<bar>s k\<bar> \<bar>t\<bar> / 2 ^ 52 + 1 / 2 ^ 1073"
    for k
    using lerp64_error [OF conjunct1 [OF inv [of k]] T] by (simp add: s_def)
  have errE: "\<bar>s (Suc k) - (s k + (t - s k) * (1 / 20))\<bar> \<le> E" for k
  proof -
    have "max \<bar>s k\<bar> \<bar>t\<bar> / 2 ^ 52 \<le> M / 2 ^ 52"
      using sM [of k] by (intro divide_right_mono) simp_all
    then show ?thesis using err [of k] unfolding E_def by linarith
  qed
  have step: "\<bar>t - s (Suc k)\<bar> \<le> (19 / 20) * \<bar>t - s k\<bar> + E" for k
  proof -
    have "t - s (Suc k) = (19 / 20) * (t - s k) - (s (Suc k) - (s k + (t - s k) * (1 / 20)))"
      by (simp add: algebra_simps diff_divide_distrib)
    then have "\<bar>t - s (Suc k)\<bar> \<le> \<bar>(19 / 20) * (t - s k)\<bar> + \<bar>s (Suc k) - (s k + (t - s k) * (1 / 20))\<bar>"
      by linarith
    also have "\<bar>(19 / 20) * (t - s k)\<bar> = (19 / 20) * \<bar>t - s k\<bar>" by (subst abs_mult) simp
    finally show ?thesis using errE [of k] by linarith
  qed
  have decay: "\<bar>t - s k\<bar> \<le> (19 / 20) ^ k * \<bar>t - x\<bar> + 20 * E" for k
  proof (induction k)
    case 0
    have "0 \<le> E" unfolding E_def M_def by simp
    then show ?case by (simp add: s_def)
  next
    case (Suc k)
    have "\<bar>t - s (Suc k)\<bar> \<le> (19 / 20) * \<bar>t - s k\<bar> + E" by (rule step)
    also have "\<dots> \<le> (19 / 20) * ((19 / 20) ^ k * \<bar>t - x\<bar> + 20 * E) + E"
      using Suc by simp
    also have "\<dots> = (19 / 20) ^ Suc k * \<bar>t - x\<bar> + 20 * E" by (simp add: algebra_simps)
    finally show ?case .
  qed
  have "20 * E \<le> M / 2 ^ 47 + 1 / 2 ^ 1068"
  proof -
    have "0 \<le> M" unfolding M_def by simp
    then have "20 * (M / 2 ^ 52) \<le> M / 2 ^ 47" by (simp add: field_simps)
    moreover have "20 * (1 / 2 ^ 1073) \<le> (1 / 2 ^ 1068 :: real)" by simp
    ultimately have "20 * (M / 2 ^ 52) + 20 * (1 / 2 ^ 1073) \<le> M / 2 ^ 47 + 1 / 2 ^ 1068"
      by (rule add_mono)
    then show ?thesis unfolding E_def by (simp only: distrib_left)
  qed
  then have bound: "\<bar>t - s n\<bar> \<le> (19 / 20) ^ n * \<bar>t - x\<bar> + M / 2 ^ 47 + 1 / 2 ^ 1068"
    using decay [of n] by linarith
  have n95: "(0.95 :: real) = 19 / 20" and n05: "(0.05 :: real) = 1 / 20" by simp_all
  show ?thesis
    unfolding settles_def n95 n05
    using between [of n] err [of n] bound
    unfolding s_def M_def by blast
qed


lemma binary64_alpha: "binary64 0.05 = Some (3602879701896397 / 2 ^ 56)"
proof -
  have "round64 0.05 = 3602879701896397 / 2 ^ 56" using alpha64 by simp
  then show ?thesis by (rule binary64_I) simp
qed

lemma double_upto_mono: "double_upto 1000 x \<Longrightarrow> double_upto 1020 x"
proof -
  assume "double_upto 1000 x"
  then have r: "round64 x = x" and x: "\<bar>x\<bar> \<le> 2 ^ 1000" by (simp_all add: double_upto_def)
  have "(2 ^ 1000 :: real) \<le> 2 ^ 1020" by simp
  with x have "\<bar>x\<bar> \<le> 2 ^ 1020" by (rule order_trans)
  with r show ?thesis by (simp only: double_upto_def simp_thms)
qed

lemma scaled_double:
  assumes "double_upto 1000 x"
  shows "binary64 (x * 1.5) = Some (round64 (x * 1.5)) \<and> double_upto 1020 (round64 (x * 1.5))"
proof -
  have x: "\<bar>x\<bar> \<le> 2 ^ 1000" using assms by (simp add: double_upto_def)
  have "\<bar>round64 (x * 1.5)\<bar> \<le> 2 * \<bar>x * 1.5\<bar>" by (rule round64_abs_le)
  also have "\<dots> = 3 * \<bar>x\<bar>" by (simp add: abs_mult)
  also have "\<dots> \<le> 3 * 2 ^ 1000" using x by simp
  finally have b: "\<bar>round64 (x * 1.5)\<bar> \<le> 3 * 2 ^ 1000" .
  have "(3 * 2 ^ 1000 :: real) < 2 ^ 1024" by simp
  with b have lt: "\<bar>round64 (x * 1.5)\<bar> < 2 ^ 1024" by (rule le_less_trans)
  have "(3 * 2 ^ 1000 :: real) \<le> 2 ^ 1020" by simp
  with b have le: "\<bar>round64 (x * 1.5)\<bar> \<le> 2 ^ 1020" by (rule order_trans)
  show ?thesis using lt le by (simp add: binary64_def double_upto_def round64_idem)
qed

lemma targetPos64_double:
  assumes "double_vec (treePos p)" "double_vec (scatterPos p)"
  shows "\<exists>T. targetPos64 st self p = Some T \<and>
           double_upto 1020 (vx T) \<and> double_upto 1020 (vy T) \<and> double_upto 1020 (vz T)"
proof -
  have lit: "double_upto 1020 0" "double_upto 1020 2" "double_upto 1020 35"
    by (simp_all add: double_upto_def round64_0 doubles)
  have t: "double_upto 1020 (vx (treePos p))" "double_upto 1020 (vy (treePos p))"
    "double_upto 1020 (vz (treePos p))"
    using assms(1) by (simp_all add: double_vec_def double_upto_mono)
  have s: "double_upto 1020 (vx (scatterPos p))" "double_upto 1020 (vy (scatterPos p))"
    "double_upto 1020 (vz (scatterPos p))"
    using assms(2) by (simp_all add: double_vec_def double_upto_mono)
  have m: "multiplyScalar64 (scatterPos p) 1.5
             = Some \<lparr>vx = round64 (vx (scatterPos p) * 1.5), vy = round64 (vy (scatterPos p) * 1.5),
                     vz = round64 (vz (scatterPos p) * 1.5)\<rparr>"
    and ms: "double_upto 1020 (round64 (vx (scatterPos p) * 1.5))"
      "double_upto 1020 (round64 (vy (scatterPos p) * 1.5))"
      "double_upto 1020 (round64 (vz (scatterPos p) * 1.5))"
    using assms(2) scaled_double [of "vx (scatterPos p)"] scaled_double [of "vy (scatterPos p)"]
      scaled_double [of "vz (scatterPos p)"]
    by (simp_all add: multiplyScalar64_def double_vec_def)
  show ?thesis
    unfolding targetPos64_def using lit t s m ms by simp
qed

lemma targetPos64_position:
  "targetPos64 st self (p\<lparr>mesh := (mesh p)\<lparr>position := q\<rparr>\<rparr>) = targetPos64 st self p"
  by (simp add: targetPos64_def)

lemma position64_value:
  assumes "targetPos64 st self p = Some T"
  shows "position64 st self p = Vector3_lerp64 (position (mesh p)) T (3602879701896397 / 2 ^ 56)"
  by (simp only: position64_def assms option.case binary64_alpha)

lemma Vector3_lerp64_Some:
  "lerp64 (vx a) (vx v) c = Some x \<Longrightarrow> lerp64 (vy a) (vy v) c = Some y \<Longrightarrow>
   lerp64 (vz a) (vz v) c = Some z \<Longrightarrow>
   Vector3_lerp64 a v c = Some \<lparr>vx = x, vy = y, vz = z\<rparr>"
  by (simp add: Vector3_lerp64_def)

lemma ticks64_components:
  assumes T: "targetPos64 st self p = Some T"
    and d: "double_upto 1020 (vx (position (mesh p)))" "double_upto 1020 (vy (position (mesh p)))"
      "double_upto 1020 (vz (position (mesh p)))"
      "double_upto 1020 (vx T)" "double_upto 1020 (vy T)" "double_upto 1020 (vz T)"
  shows "ticks64 st self p n =
           Some \<lparr>vx = component64 (vx (position (mesh p))) (vx T) n,
                 vy = component64 (vy (position (mesh p))) (vy T) n,
                 vz = component64 (vz (position (mesh p))) (vz T) n\<rparr>"
proof (induction n)
  case 0
  show ?case by simp
next
  case (Suc n)
  have l: "lerp64 (component64 (vx (position (mesh p))) (vx T) n) (vx T) (3602879701896397 / 2 ^ 56)
             = Some (component64 (vx (position (mesh p))) (vx T) (Suc n))"
    "lerp64 (component64 (vy (position (mesh p))) (vy T) n) (vy T) (3602879701896397 / 2 ^ 56)
             = Some (component64 (vy (position (mesh p))) (vy T) (Suc n))"
    "lerp64 (component64 (vz (position (mesh p))) (vz T) n) (vz T) (3602879701896397 / 2 ^ 56)
             = Some (component64 (vz (position (mesh p))) (vz T) (Suc n))"
    using d by (simp_all only: component64_lerp64)
  define q where "q = \<lparr>vx = component64 (vx (position (mesh p))) (vx T) n,
                 vy = component64 (vy (position (mesh p))) (vy T) n,
                 vz = component64 (vz (position (mesh p))) (vz T) n\<rparr>"
  have T': "targetPos64 st self (p\<lparr>mesh := (mesh p)\<lparr>position := q\<rparr>\<rparr>) = Some T"
    by (simp only: targetPos64_position T)
  have pq: "position (mesh (p\<lparr>mesh := (mesh p)\<lparr>position := q\<rparr>\<rparr>)) = q" by simp
  have "ticks64 st self p (Suc n) = position64 st self (p\<lparr>mesh := (mesh p)\<lparr>position := q\<rparr>\<rparr>)"
    by (simp only: ticks64.simps Suc option.case q_def)
  also have "\<dots> = Vector3_lerp64 q T (3602879701896397 / 2 ^ 56)"
    by (simp only: position64_value [OF T'] pq)
  also have "\<dots> = Some \<lparr>vx = component64 (vx (position (mesh p))) (vx T) (Suc n),
                 vy = component64 (vy (position (mesh p))) (vy T) (Suc n),
                 vz = component64 (vz (position (mesh p))) (vz T) (Suc n)\<rparr>"
    by (rule Vector3_lerp64_Some) (simp_all only: q_def Vector3.select_convs l)
  finally show ?case .
qed

lemma distanceTo_mono:
  assumes "\<bar>vx b - vx a'\<bar> \<le> \<bar>vx b - vx a\<bar>" "\<bar>vy b - vy a'\<bar> \<le> \<bar>vy b - vy a\<bar>"
    "\<bar>vz b - vz a'\<bar> \<le> \<bar>vz b - vz a\<bar>"
  shows "distanceTo a' b \<le> distanceTo a b"
proof -
  have sq: "\<bar>u\<bar> \<le> \<bar>v\<bar> \<Longrightarrow> u * u \<le> v * v" for u v :: real
    using abs_le_square_iff [of u v] by (simp add: power2_eq_square)
  have "(vx a' - vx b) * (vx a' - vx b) \<le> (vx a - vx b) * (vx a - vx b)"
    "(vy a' - vy b) * (vy a' - vy b) \<le> (vy a - vy b) * (vy a - vy b)"
    "(vz a' - vz b) * (vz a' - vz b) \<le> (vz a - vz b) * (vz a - vz b)"
    using assms by (intro sq; simp add: abs_minus_commute)+
  then show ?thesis unfolding distanceTo_def by (intro real_sqrt_le_mono add_mono)
qed

lemma settles_closer: "settles x0 t n x x' \<Longrightarrow> \<bar>t - x'\<bar> \<le> \<bar>t - x\<bar>"
proof -
  assume "settles x0 t n x x'"
  then have "min x t \<le> x'" "x' \<le> max x t" by (simp_all only: settles_def)
  then show ?thesis by linarith
qed


lemma stall_y:
  "lerp64 (- 15 + 10 / 2 ^ 49) (- 15) (3602879701896397 / 2 ^ 56) = Some (- 15 + 10 / 2 ^ 49)"
proof -
  have eq: "- 15 - (- 15 + 10 / 2 ^ 49) = (- (10 / 2 ^ 49) :: real)" by simp
  have "round64 (- (10 / 2 ^ 49)) = - (10 / 2 ^ 49)"
    by (rule round64_exact [where k = "- (5 * 2 ^ 50)" and e = "- 46"])
       (simp_all add: powr_minus_divide)
  then have "round64 (- 15 - (- 15 + 10 / 2 ^ 49)) = - (10 / 2 ^ 49)" by (simp only: eq)
  then have d: "binary64 (- 15 - (- 15 + 10 / 2 ^ 49)) = Some (- (10 / 2 ^ 49))"
    by (rule binary64_I) simp
  have "rne ((- (10 / 2 ^ 49) * (3602879701896397 / 2 ^ 56)) / 2 powr (of_int (- 50) - 52))
          = - (2 ^ 52) - 1 + 1"
    by (rule rne_up) (simp_all add: powr_minus_divide)
  then have "rne ((- (10 / 2 ^ 49) * (3602879701896397 / 2 ^ 56)) / 2 powr (of_int (- 50) - 52))
          = - (2 ^ 52)"
    by simp
  from round64_eval [OF _ _ _ _ this]
  have "round64 (- (10 / 2 ^ 49) * (3602879701896397 / 2 ^ 56)) = - (1 / 2 ^ 50)"
    by (simp add: powr_minus_divide)
  then have m: "binary64 (- (10 / 2 ^ 49) * (3602879701896397 / 2 ^ 56)) = Some (- (1 / 2 ^ 50))"
    by (rule binary64_I) simp
  have "rne ((- 15 + 10 / 2 ^ 49 + - (1 / 2 ^ 50)) / 2 powr (of_int 3 - 52)) = - (15 * 2 ^ 49) + 10"
    using rne_tie [of "(- 15 + 10 / 2 ^ 49 + - (1 / 2 ^ 50)) / 2 powr (of_int 3 - 52)"
        "- (15 * 2 ^ 49) + 9"]
    by (simp add: powr_minus_divide)
  from round64_eval [OF _ _ _ _ this]
  have "round64 (- 15 + 10 / 2 ^ 49 + - (1 / 2 ^ 50)) = - 15 + 10 / 2 ^ 49"
    by (simp add: powr_minus_divide)
  then have x': "binary64 (- 15 + 10 / 2 ^ 49 + - (1 / 2 ^ 50)) = Some (- 15 + 10 / 2 ^ 49)"
    by (rule binary64_I) simp
  show ?thesis by (simp only: lerp64_def d m x' option.case)
qed

lemma stall_z:
  "lerp64 (- 1 / 2 - 10 / 2 ^ 53) (- 1 / 2) (3602879701896397 / 2 ^ 56)
     = Some (- 1 / 2 - 10 / 2 ^ 53)"
proof -
  have eq: "- 1 / 2 - (- 1 / 2 - 10 / 2 ^ 53) = (10 / 2 ^ 53 :: real)" by simp
  have "round64 (10 / 2 ^ 53) = 10 / 2 ^ 53"
    by (rule round64_exact [where k = "5 * 2 ^ 50" and e = "- 50"])
       (simp_all add: powr_minus_divide)
  then have "round64 (- 1 / 2 - (- 1 / 2 - 10 / 2 ^ 53)) = 10 / 2 ^ 53" by (simp only: eq)
  then have d: "binary64 (- 1 / 2 - (- 1 / 2 - 10 / 2 ^ 53)) = Some (10 / 2 ^ 53)"
    by (rule binary64_I) simp
  have "rne ((10 / 2 ^ 53 * (3602879701896397 / 2 ^ 56)) / 2 powr (of_int (- 54) - 52)) = 2 ^ 52"
    by (rule rne_down) (simp_all add: powr_minus_divide)
  from round64_eval [OF _ _ _ _ this]
  have "round64 (10 / 2 ^ 53 * (3602879701896397 / 2 ^ 56)) = 1 / 2 ^ 54"
    by (simp add: powr_minus_divide)
  then have m: "binary64 (10 / 2 ^ 53 * (3602879701896397 / 2 ^ 56)) = Some (1 / 2 ^ 54)"
    by (rule binary64_I) simp
  have "rne ((- 1 / 2 - 10 / 2 ^ 53 + 1 / 2 ^ 54) / 2 powr (of_int (- 1) - 52)) = - (2 ^ 52) - 10"
    using rne_tie [of "(- 1 / 2 - 10 / 2 ^ 53 + 1 / 2 ^ 54) / 2 powr (of_int (- 1) - 52)"
        "- (2 ^ 52) - 10"]
    by (simp add: powr_minus_divide)
  from round64_eval [OF _ _ _ _ this]
  have "round64 (- 1 / 2 - 10 / 2 ^ 53 + 1 / 2 ^ 54) = - 1 / 2 - 10 / 2 ^ 53"
    by (simp add: powr_minus_divide)
  then have x': "binary64 (- 1 / 2 - 10 / 2 ^ 53 + 1 / 2 ^ 54) = Some (- 1 / 2 - 10 / 2 ^ 53)"
    by (rule binary64_I) simp
  show ?thesis by (simp only: lerp64_def d m x' option.case)
qed

text \<open>
  C6. The claim has the distance to the target decrease strictly at every tick, by the
  exact factor 0.95, and approach zero. That is so of the interpolation over the real
  numbers; the code computes it in doubles. Here the sample particle is in TREE mode with
  each component of its position ten steps of the double grid short of its tree position
  \<open>(12, - 15, - 1 / 2)\<close>: the tick computes a step of half a grid step for each
  component, the sum is a tie and rounds back, and the position stays where it is, off
  the target.
\<close>

theorem position_stalls_counterexample:
  "mode (stateIn TREE None) = TREE \<and>
   targetPos64 (stateIn TREE None) 0 stalledParticle = Some \<lparr>vx = 12, vy = - 15, vz = - 1 / 2\<rparr> \<and>
   position (mesh stalledParticle) \<noteq> \<lparr>vx = 12, vy = - 15, vz = - 1 / 2\<rparr> \<and>
   position64 (stateIn TREE None) 0 stalledParticle = Some (position (mesh stalledParticle)) \<and>
   ticks64 (stateIn TREE None) 0 stalledParticle 1 = ticks64 (stateIn TREE None) 0 stalledParticle 0"
proof -
  have T: "targetPos64 (stateIn TREE None) 0 stalledParticle = Some \<lparr>vx = 12, vy = - 15, vz = - 1 / 2\<rparr>"
    by (simp add: targetPos64_def stateIn_def stalledParticle_def sampleParticle_value)
  have P: "position (mesh stalledParticle)
             = \<lparr>vx = 12 - 10 / 2 ^ 49, vy = - 15 + 10 / 2 ^ 49, vz = - 1 / 2 - 10 / 2 ^ 53\<rparr>"
    by (simp add: stalledParticle_def)
  have ne: "position (mesh stalledParticle) \<noteq> \<lparr>vx = 12, vy = - 15, vz = - 1 / 2\<rparr>"
    unfolding P by simp
  have "Vector3_lerp64 \<lparr>vx = 12 - 10 / 2 ^ 49, vy = - 15 + 10 / 2 ^ 49, vz = - 1 / 2 - 10 / 2 ^ 53\<rparr>
          \<lparr>vx = 12, vy = - 15, vz = - 1 / 2\<rparr> (3602879701896397 / 2 ^ 56)
        = Some \<lparr>vx = 12 - 10 / 2 ^ 49, vy = - 15 + 10 / 2 ^ 49, vz = - 1 / 2 - 10 / 2 ^ 53\<rparr>"
    by (rule Vector3_lerp64_Some) (simp_all only: Vector3.select_convs stall_x stall_y stall_z)
  then have S: "position64 (stateIn TREE None) 0 stalledParticle = Some (position (mesh stalledParticle))"
    by (simp only: position64_value [OF T] P)
  have same: "stalledParticle\<lparr>mesh := (mesh stalledParticle)\<lparr>position := position (mesh stalledParticle)\<rparr>\<rparr>
                = stalledParticle"
    by simp
  have "ticks64 (stateIn TREE None) 0 stalledParticle 1 = ticks64 (stateIn TREE None) 0 stalledParticle 0"
    by (simp add: same S)
  then show ?thesis using T ne S by (simp add: stateIn_def)
qed

text \<open>
  C6, amended. For a particle whose position and layout targets are doubles of size at
  most \<open>2 ^ 1000\<close>, under an unchanged state of any mode, and so in TREE and in FOCUS,
  every tick returns a finite position, and for each component: the new value lies between
  the old one and the target's, so the position never passes the target and the distance
  to it never grows; the new value is the exact interpolation \<open>x + (t - x) * 0.05\<close>, which
  would multiply the offset by 0.95, up to the rounding of the three operations, at most
  \<open>max \<bar>x\<bar> \<bar>t\<bar> / 2 ^ 52 + 1 / 2 ^ 1073\<close>; and after \<open>n\<close> ticks the offset from the target
  is at most \<open>0.95 ^ n\<close> times the first offset plus
  \<open>max \<bar>x0\<bar> \<bar>t\<bar> / 2 ^ 47 + 1 / 2 ^ 1068\<close>.
\<close>

theorem position_settles_up_to_rounding:
  "double_vec (position (mesh p)) \<Longrightarrow> double_vec (treePos p) \<Longrightarrow> double_vec (scatterPos p) \<Longrightarrow>
   \<exists>T. targetPos64 st self p = Some T \<and>
     (\<forall>n. \<exists>q q'. ticks64 st self p n = Some q \<and> ticks64 st self p (Suc n) = Some q' \<and>
        settles (vx (position (mesh p))) (vx T) n (vx q) (vx q') \<and>
        settles (vy (position (mesh p))) (vy T) n (vy q) (vy q') \<and>
        settles (vz (position (mesh p))) (vz T) n (vz q) (vz q') \<and>
        distanceTo q' T \<le> distanceTo q T)"
proof -
  assume P: "double_vec (position (mesh p))" and A: "double_vec (treePos p)"
    and B: "double_vec (scatterPos p)"
  from targetPos64_double [OF A B, of st self]
  obtain T where T: "targetPos64 st self p = Some T"
    and dT: "double_upto 1020 (vx T)" "double_upto 1020 (vy T)" "double_upto 1020 (vz T)"
    by blast
  have dP: "double_upto 1020 (vx (position (mesh p)))" "double_upto 1020 (vy (position (mesh p)))"
    "double_upto 1020 (vz (position (mesh p)))"
    using P by (simp_all add: double_vec_def double_upto_mono)
  define X where "X = component64 (vx (position (mesh p))) (vx T)"
  define Y where "Y = component64 (vy (position (mesh p))) (vy T)"
  define Z where "Z = component64 (vz (position (mesh p))) (vz T)"
  have tk: "ticks64 st self p n = Some \<lparr>vx = X n, vy = Y n, vz = Z n\<rparr>" for n
    unfolding X_def Y_def Z_def by (rule ticks64_components [OF T dP dT])
  have sx: "settles (vx (position (mesh p))) (vx T) n (X n) (X (Suc n))" for n
    unfolding X_def by (rule component64_settles [OF dP(1) dT(1)])
  have sy: "settles (vy (position (mesh p))) (vy T) n (Y n) (Y (Suc n))" for n
    unfolding Y_def by (rule component64_settles [OF dP(2) dT(2)])
  have sz: "settles (vz (position (mesh p))) (vz T) n (Z n) (Z (Suc n))" for n
    unfolding Z_def by (rule component64_settles [OF dP(3) dT(3)])
  have dist: "distanceTo \<lparr>vx = X (Suc n), vy = Y (Suc n), vz = Z (Suc n)\<rparr> T
                \<le> distanceTo \<lparr>vx = X n, vy = Y n, vz = Z n\<rparr> T" for n
    using settles_closer [OF sx [of n]] settles_closer [OF sy [of n]] settles_closer [OF sz [of n]]
    by (intro distanceTo_mono) (simp_all only: Vector3.select_convs)
  have "\<exists>q q'. ticks64 st self p n = Some q \<and> ticks64 st self p (Suc n) = Some q' \<and>
        settles (vx (position (mesh p))) (vx T) n (vx q) (vx q') \<and>
        settles (vy (position (mesh p))) (vy T) n (vy q) (vy q') \<and>
        settles (vz (position (mesh p))) (vz T) n (vz q) (vz q') \<and>
        distanceTo q' T \<le> distanceTo q T" for n
    apply (rule exI [where x = "\<lparr>vx = X n, vy = Y n, vz = Z n\<rparr>"])
    apply (rule exI [where x = "\<lparr>vx = X (Suc n), vy = Y (Suc n), vz = Z (Suc n)\<rparr>"])
    apply (simp only: Vector3.select_convs)
    apply (intro conjI tk sx sy sz dist)
    done
  with T show ?thesis by blast
qed

theorem position_settles_up_to_rounding_witness:
  "double_vec (position (mesh sampleParticle)) \<and> double_vec (treePos sampleParticle) \<and>
   double_vec (scatterPos sampleParticle) \<and>
   (\<exists>q'. ticks64 (stateIn TREE None) 0 sampleParticle 1 = Some q' \<and>
      0 \<le> vx q' \<and> vx q' \<le> 12 \<and>
      distanceTo q' \<lparr>vx = 12, vy = - 15, vz = - 1 / 2\<rparr>
        \<le> distanceTo \<lparr>vx = 0, vy = 0, vz = - 8\<rparr> \<lparr>vx = 12, vy = - 15, vz = - 1 / 2\<rparr>)"
proof -
  have big: "\<bar>x\<bar> \<le> 35 \<Longrightarrow> \<bar>x\<bar> \<le> 2 ^ 1000" for x :: real
  proof -
    assume "\<bar>x\<bar> \<le> 35"
    moreover have "(35 :: real) \<le> 2 ^ 1000" by simp
    ultimately show ?thesis by (rule order_trans)
  qed
  have d: "double_upto 1000 0" "double_upto 1000 (- 8)" "double_upto 1000 12"
    "double_upto 1000 (- 15)" "double_upto 1000 (- 1 / 2)"
    unfolding double_upto_def using doubles by (simp_all add: round64_0 big)
  have P: "double_vec (position (mesh sampleParticle))"
    and A: "double_vec (treePos sampleParticle)"
    and B: "double_vec (scatterPos sampleParticle)"
    using d by (simp_all add: double_vec_def sampleParticle_value)
  have T: "targetPos64 (stateIn TREE None) 0 sampleParticle = Some \<lparr>vx = 12, vy = - 15, vz = - 1 / 2\<rparr>"
    by (simp add: targetPos64_def stateIn_def sampleParticle_value)
  from position_settles_up_to_rounding [OF P A B, of "stateIn TREE None" 0]
  obtain T' where T': "targetPos64 (stateIn TREE None) 0 sampleParticle = Some T'"
    and every: "\<forall>n. \<exists>q q'. ticks64 (stateIn TREE None) 0 sampleParticle n = Some q \<and>
        ticks64 (stateIn TREE None) 0 sampleParticle (Suc n) = Some q' \<and>
        settles (vx (position (mesh sampleParticle))) (vx T') n (vx q) (vx q') \<and>
        settles (vy (position (mesh sampleParticle))) (vy T') n (vy q) (vy q') \<and>
        settles (vz (position (mesh sampleParticle))) (vz T') n (vz q) (vz q') \<and>
        distanceTo q' T' \<le> distanceTo q T'"
    by blast
  have TT: "T' = \<lparr>vx = 12, vy = - 15, vz = - 1 / 2\<rparr>" using T T' by simp
  from every [rule_format, of 0]
  obtain q q' where q: "ticks64 (stateIn TREE None) 0 sampleParticle 0 = Some q"
    and q': "ticks64 (stateIn TREE None) 0 sampleParticle (Suc 0) = Some q'"
    and sx: "settles (vx (position (mesh sampleParticle))) (vx T') 0 (vx q) (vx q')"
    and di: "distanceTo q' T' \<le> distanceTo q T'"
    by blast
  have q0: "q = \<lparr>vx = 0, vy = 0, vz = - 8\<rparr>" using q by (simp add: sampleParticle_value)
  have "min (vx q) (vx T') \<le> vx q'" "vx q' \<le> max (vx q) (vx T')"
    using sx by (simp_all only: settles_def)
  then have "0 \<le> vx q'" "vx q' \<le> 12" unfolding q0 TT by simp_all
  then have "\<exists>q'. ticks64 (stateIn TREE None) 0 sampleParticle 1 = Some q' \<and>
      0 \<le> vx q' \<and> vx q' \<le> 12 \<and>
      distanceTo q' \<lparr>vx = 12, vy = - 15, vz = - 1 / 2\<rparr>
        \<le> distanceTo \<lparr>vx = 0, vy = 0, vz = - 8\<rparr> \<lparr>vx = 12, vy = - 15, vz = - 1 / 2\<rparr>"
    using q' di unfolding q0 TT by (intro exI [where x = q']) (simp del: ticks64.simps)
  with P A B show ?thesis by blast
qed

end
